theory Spec2Isabelle
  imports Main "HOL-Library.Sublist" "HOL-Library.Word"
begin

section \<open>JavaScript values of the provider's JSON payloads\<close>

text \<open>
  The response body and the raw log records are untyped in the source (\<open>data\<close> comes from
  axios, \<open>etherscanLog: any\<close>), so they are modelled as JSON values extended with
  \<open>undefined\<close>. An object is the association list of its own properties. A number is
  written as an integer and stands for the double nearest to that integer, which is the
  integer itself below \<open>2 ^ 53\<close>; a payload number with a fraction is outside the model.
\<close>

datatype jsval =
    JUndefined
  | JNull
  | JBool bool
  | JNum int
  | JStr string
  | JArr "jsval list"
  | JObj "(string \<times> jsval) list"

text \<open>
  A number that \<open>Number.parseInt\<close> returns: \<open>NaN\<close>, \<open>-0\<close>, an infinity, or a double whose value
  is an integer (\<open>Num 0\<close> is \<open>+0\<close>).
\<close>

datatype jsnum = NaN | NegZero | PosInfinity | NegInfinity | Num int

datatype error =
    Error string
  | TypeError
  | InvalidAddressError

text \<open>\<open>!!v\<close>: JavaScript truthiness.\<close>

fun truthy :: "jsval \<Rightarrow> bool" where
  "truthy JUndefined = False"
| "truthy JNull = False"
| "truthy (JBool b) = b"
| "truthy (JNum n) = (n \<noteq> 0)"
| "truthy (JStr s) = (s \<noteq> [])"
| "truthy (JArr xs) = True"
| "truthy (JObj kvs) = True"

fun nullish :: "jsval \<Rightarrow> bool" where
  "nullish JUndefined = True"
| "nullish JNull = True"
| "nullish v = False"

text \<open>
  \<open>v.k\<close> on a value that is neither \<open>undefined\<close> nor \<open>null\<close>, for the property names the
  source reads (\<open>result\<close>, \<open>length\<close> and the fields of a log record; none of them is a
  prototype property of a plain object): the own property of an object, the length of a
  string or array, and \<open>undefined\<close> otherwise.
\<close>

fun propOf :: "jsval \<Rightarrow> string \<Rightarrow> jsval" where
  "propOf (JObj kvs) k = (case map_of kvs k of None \<Rightarrow> JUndefined | Some v \<Rightarrow> v)"
| "propOf (JStr s) k = (if k = ''length'' then JNum (int (length s)) else JUndefined)"
| "propOf (JArr xs) k = (if k = ''length'' then JNum (int (length xs)) else JUndefined)"
| "propOf v k = JUndefined"

text \<open>\<open>v.k\<close>: reading a property of \<open>undefined\<close> or \<open>null\<close> is a \<open>TypeError\<close>.\<close>

definition getProp :: "jsval \<Rightarrow> string \<Rightarrow> error + jsval" where
  "getProp v k = (if nullish v then Inl TypeError else Inr (propOf v k))"

text \<open>\<open>v?.length\<close>: \<open>undefined\<close> on \<open>undefined\<close> and \<open>null\<close>, the property otherwise.\<close>

definition optLength :: "jsval \<Rightarrow> jsval" where
  "optLength v = (if nullish v then JUndefined else propOf v ''length'')"

fun isArray :: "jsval \<Rightarrow> bool" where
  "isArray (JArr xs) = True"
| "isArray v = False"

text \<open>A callback applied to each element in order; the first exception aborts the loop.\<close>

fun mapE :: "('a \<Rightarrow> error + 'b) \<Rightarrow> 'a list \<Rightarrow> error + 'b list" where
  "mapE f [] = Inr []"
| "mapE f (x # xs) =
     (case f x of
        Inl e \<Rightarrow> Inl e
      | Inr y \<Rightarrow> (case mapE f xs of Inl e \<Rightarrow> Inl e | Inr ys \<Rightarrow> Inr (y # ys)))"

text \<open>
  \<open>v.map(f)\<close>: only an array has a \<open>map\<close> method; on any other JSON value the call is a
  \<open>TypeError\<close> (\<open>undefined\<close> and \<open>null\<close> have no properties, a string, number, boolean or
  parsed object has no function \<open>map\<close>).
\<close>

fun arrayMap :: "(jsval \<Rightarrow> error + 'b) \<Rightarrow> jsval \<Rightarrow> error + 'b list" where
  "arrayMap f (JArr xs) = mapE f xs"
| "arrayMap f v = Inl TypeError"

text \<open>\<open>v.filter(p)\<close>, with a predicate that does not throw.\<close>

fun arrayFilter :: "(jsval \<Rightarrow> bool) \<Rightarrow> jsval \<Rightarrow> error + jsval list" where
  "arrayFilter p (JArr xs) = Inr (filter p xs)"
| "arrayFilter p v = Inl TypeError"

subsection \<open>Strings\<close>

text \<open>
  A string is the sequence of its UTF-16 code units, and the type \<open>char\<close> holds the code
  units below 256 (the characters of ISO 8859-1): text with other characters is outside
  the model. \<open>length\<close> counts what JavaScript's \<open>.length\<close> counts.
\<close>

text \<open>\<open>s.includes(sub)\<close>: \<open>sub\<close> occurs in \<open>s\<close> as a contiguous run.\<close>

fun str_includes :: "string \<Rightarrow> string \<Rightarrow> bool" where
  "str_includes [] sub = (sub = [])"
| "str_includes (c # cs) sub = (prefix sub (c # cs) \<or> str_includes cs sub)"

fun lookupChar :: "char \<Rightarrow> string \<Rightarrow> string \<Rightarrow> char option" where
  "lookupChar c (k # ks) (v # vs) = (if c = k then Some v else lookupChar c ks vs)"
| "lookupChar c ks vs = None"

text \<open>
  The lower case of a character: of the letters \<open>A\<close> to \<open>Z\<close> and of the capital letters
  from \<open>0xC0\<close> to \<open>0xDE\<close> (\<open>0xD7\<close>, the multiplication sign, is not a letter); every other
  character below 256 is its own lower case.
\<close>

definition toLowerChar :: "char \<Rightarrow> char" where
  "toLowerChar c =
     (case lookupChar c
        (''ABCDEFGHIJKLMNOPQRSTUVWXYZ'' @
         [CHR 0xC0, CHR 0xC1, CHR 0xC2, CHR 0xC3, CHR 0xC4, CHR 0xC5, CHR 0xC6, CHR 0xC7,
          CHR 0xC8, CHR 0xC9, CHR 0xCA, CHR 0xCB, CHR 0xCC, CHR 0xCD, CHR 0xCE, CHR 0xCF,
          CHR 0xD0, CHR 0xD1, CHR 0xD2, CHR 0xD3, CHR 0xD4, CHR 0xD5, CHR 0xD6,
          CHR 0xD8, CHR 0xD9, CHR 0xDA, CHR 0xDB, CHR 0xDC, CHR 0xDD, CHR 0xDE])
        (''abcdefghijklmnopqrstuvwxyz'' @
         [CHR 0xE0, CHR 0xE1, CHR 0xE2, CHR 0xE3, CHR 0xE4, CHR 0xE5, CHR 0xE6, CHR 0xE7,
          CHR 0xE8, CHR 0xE9, CHR 0xEA, CHR 0xEB, CHR 0xEC, CHR 0xED, CHR 0xEE, CHR 0xEF,
          CHR 0xF0, CHR 0xF1, CHR 0xF2, CHR 0xF3, CHR 0xF4, CHR 0xF5, CHR 0xF6,
          CHR 0xF8, CHR 0xF9, CHR 0xFA, CHR 0xFB, CHR 0xFC, CHR 0xFD, CHR 0xFE]) of
        None \<Rightarrow> c
      | Some l \<Rightarrow> l)"

text \<open>\<open>s.toLowerCase()\<close>\<close>

definition toLowerCase :: "string \<Rightarrow> string" where
  "toLowerCase s = map toLowerChar s"

fun indexOf :: "char \<Rightarrow> string \<Rightarrow> nat option" where
  "indexOf c [] = None"
| "indexOf c (d # ds) = (if c = d then Some 0 else map_option Suc (indexOf c ds))"

text \<open>
  The value of a character as a digit of \<open>Number.parseInt\<close>: the digits \<open>0\<close> to \<open>9\<close> and the
  letters \<open>a\<close> to \<open>z\<close> and \<open>A\<close> to \<open>Z\<close>, counting from ten.
\<close>

definition digitValue :: "char \<Rightarrow> nat option" where
  "digitValue c = indexOf (toLowerChar c) ''0123456789abcdefghijklmnopqrstuvwxyz''"

definition isRadixDigit :: "nat \<Rightarrow> char \<Rightarrow> bool" where
  "isRadixDigit r c = (case digitValue c of None \<Rightarrow> False | Some d \<Rightarrow> d < r)"

text \<open>
  The white space and line terminators of the language below 256: tab, line feed, vertical
  tab, form feed, carriage return, space and the no-break space.
\<close>

definition isWhiteSpace :: "char \<Rightarrow> bool" where
  "isWhiteSpace c =
     (c \<in> set [CHR 0x09, CHR 0x0A, CHR 0x0B, CHR 0x0C, CHR 0x0D, CHR '' '', CHR 0xA0])"

fun digitsValue :: "nat \<Rightarrow> string \<Rightarrow> nat \<Rightarrow> nat" where
  "digitsValue r [] acc = acc"
| "digitsValue r (c # cs) acc =
     digitsValue r cs (acc * r + (case digitValue c of None \<Rightarrow> 0 | Some d \<Rightarrow> d))"

subsection \<open>Numbers\<close>

text \<open>
  The number of an integer: the double nearest to it, ties going to the even significand,
  and an infinity from \<open>2 ^ 1024\<close> on. An integer below \<open>2 ^ 53\<close> is its own double;
  a larger one of \<open>k\<close> bits keeps its 53 leading bits, rounded.
\<close>

fun bitLength :: "nat \<Rightarrow> nat" where
  "bitLength n = (if n = 0 then 0 else Suc (bitLength (n div 2)))"

declare bitLength.simps [simp del]

definition roundToDouble :: "nat \<Rightarrow> nat option" where
  "roundToDouble m =
     (let k = bitLength m
      in if k \<le> 53 then Some m
         else
           (let e = k - 53;
                q = m div 2 ^ e;
                r = m mod 2 ^ e;
                h = 2 ^ (e - 1);
                q' = (if h < r \<or> (r = h \<and> odd q) then q + 1 else q);
                v = q' * 2 ^ e
            in if 2 ^ 1024 \<le> v then None else Some v))"

definition toNumber :: "int \<Rightarrow> jsnum" where
  "toNumber i =
     (if i < 0
      then (case roundToDouble (nat (- i)) of None \<Rightarrow> NegInfinity | Some v \<Rightarrow> Num (- int v))
      else (case roundToDouble (nat i) of None \<Rightarrow> PosInfinity | Some v \<Rightarrow> Num (int v)))"

text \<open>
  \<open>Number.parseInt(s, radix)\<close> on a string, by the steps of the language definition: leading
  white space is dropped, a sign is read, a radix outside 2..36 gives \<open>NaN\<close> (0 means 10), a
  \<open>0x\<close> prefix is dropped when the radix is 16 or was not given, the longest run of digits
  of the radix is read and the rest ignored, and no digit at all gives \<open>NaN\<close>. The result
  is the number of the integer read, \<open>-0\<close> for a zero with a minus sign. (The source calls
  it with radix 16 only; for a radix that is not a power of 2 the language lets an
  implementation approximate long runs of digits, which the model does not.)
\<close>

definition parseInt :: "string \<Rightarrow> int \<Rightarrow> jsnum" where
  "parseInt inputString radix =
     (let s0 = dropWhile isWhiteSpace inputString;
          sign = (if take 1 s0 = ''-'' then - 1 else 1 :: int);
          s1 = (if take 1 s0 = ''-'' \<or> take 1 s0 = ''+'' then drop 1 s0 else s0)
      in if radix \<noteq> 0 \<and> (radix < 2 \<or> 36 < radix) then NaN
         else
           (let stripPrefix = (radix = 0 \<or> radix = 16);
                hasPrefix = (stripPrefix \<and> (take 2 s1 = ''0x'' \<or> take 2 s1 = ''0X''));
                r = (if hasPrefix then 16 else if radix = 0 then 10 else nat radix);
                s2 = (if hasPrefix then drop 2 s1 else s1);
                z = takeWhile (isRadixDigit r) s2;
                mathInt = digitsValue r z 0
            in if z = [] then NaN
               else if mathInt = 0 then (if sign = - 1 then NegZero else Num 0)
               else toNumber (sign * int mathInt)))"

fun natToString :: "nat \<Rightarrow> string" where
  "natToString n =
     (if n < 10 then [''0123456789'' ! n]
      else natToString (n div 10) @ [''0123456789'' ! (n mod 10)])"

declare natToString.simps [simp del]

text \<open>
  The digits JavaScript prints for a positive integer that is a double: the value
  \<open>s * 10 ^ e\<close> with the fewest digits in \<open>s\<close> whose number is the given one and, among
  those, the one closest to it (the even \<open>s\<close> of two equally close). \<open>shortest m e\<close> tries
  the exponents from \<open>e\<close> down; with the exponent 0 the value is the integer itself.
\<close>

fun shortest :: "nat \<Rightarrow> nat \<Rightarrow> nat" where
  "shortest m 0 = m"
| "shortest m (Suc e) =
     (let p = 10 ^ Suc e;
          v0 = (m div p) * p;
          v1 = v0 + p;
          ok0 = (roundToDouble v0 = Some m);
          ok1 = (roundToDouble v1 = Some m)
      in if ok0 \<and> ok1 then
           (if m - v0 < v1 - m then v0
            else if v1 - m < m - v0 then v1
            else if even (m div p) then v0 else v1)
         else if ok0 then v0
         else if ok1 then v1
         else shortest m e)"

definition stripZeros :: "string \<Rightarrow> string" where
  "stripZeros s = rev (dropWhile (\<lambda>c. c = CHR ''0'') (rev s))"

text \<open>
  \<open>String(x)\<close> for a number: an integer below \<open>2 ^ 53\<close> prints its decimal digits; a larger
  one prints the digits of its shortest value, in full when they are at most 21 and
  otherwise as a significand and an exponent.
\<close>

definition positiveToString :: "nat \<Rightarrow> string" where
  "positiveToString m =
     (if m < 2 ^ 53 then natToString m
      else
        (let digits = natToString (shortest m (length (natToString m) - 1));
             n = length digits;
             s = stripZeros digits
         in if n \<le> 21 then digits
            else take 1 s @ (if 1 < length s then ''.'' @ drop 1 s else []) @
                 ''e+'' @ natToString (n - 1)))"

fun numberToString :: "jsnum \<Rightarrow> string" where
  "numberToString NaN = ''NaN''"
| "numberToString NegZero = ''0''"
| "numberToString PosInfinity = ''Infinity''"
| "numberToString NegInfinity = ''-Infinity''"
| "numberToString (Num i) =
     (if i < 0 then ''-'' @ positiveToString (nat (- i)) else positiveToString (nat i))"

fun joinComma :: "string list \<Rightarrow> string" where
  "joinComma [] = []"
| "joinComma [s] = s"
| "joinComma (s # t # ts) = s @ '','' @ joinComma (t # ts)"

lemma mapE_cong [fundef_cong]:
  "xs = ys \<Longrightarrow> (\<And>x. x \<in> set ys \<Longrightarrow> f x = g x) \<Longrightarrow> mapE f xs = mapE g ys"
proof (induction ys arbitrary: xs)
  case Nil
  then show ?case by simp
next
  case (Cons y ys)
  have "mapE f ys = mapE g ys"
    by (rule Cons.IH) (simp_all add: Cons.prems(2))
  moreover have "f y = g y"
    by (simp add: Cons.prems(2))
  ultimately show ?case
    unfolding Cons.prems(1) by (cases "g y") simp_all
qed

text \<open>
  \<open>String(v)\<close>, the conversion \<open>Number.parseInt\<close> applies to its first argument. A number
  in a payload is written as an integer and stands for the number of that integer. An
  array joins the conversions of its elements with commas, \<open>undefined\<close> and \<open>null\<close> elements
  giving the empty string, and the first element that cannot be converted throws. A parsed
  object prints as \<open>[object Object]\<close> unless it has a property \<open>toString\<close> of its own: a value
  of JSON is not callable, the inherited \<open>valueOf\<close> returns the object, and the conversion
  is a \<open>TypeError\<close>.
\<close>

fun toString :: "jsval \<Rightarrow> error + string" where
  "toString JUndefined = Inr ''undefined''"
| "toString JNull = Inr ''null''"
| "toString (JBool b) = Inr (if b then ''true'' else ''false'')"
| "toString (JNum n) = Inr (numberToString (toNumber n))"
| "toString (JStr s) = Inr s"
| "toString (JArr xs) =
     (case mapE (\<lambda>x. if nullish x then Inr [] else toString x) xs of
        Inl e \<Rightarrow> Inl e
      | Inr ss \<Rightarrow> Inr (joinComma ss))"
| "toString (JObj kvs) =
     (if map_of kvs ''toString'' = None then Inr ''[object Object]'' else Inl TypeError)"

text \<open>\<open>Number.parseInt(v, radix)\<close> on any value.\<close>

definition parseIntOf :: "jsval \<Rightarrow> int \<Rightarrow> error + jsnum" where
  "parseIntOf v radix = (case toString v of Inl e \<Rightarrow> Inl e | Inr s \<Rightarrow> Inr (parseInt s radix))"

section \<open>The data model\<close>

text \<open>
  Modelled from the spec: the type \<open>Filter\<close> of \<open>lib/interfaces\<close>, which is not among the
  sources. By section 3 both block bounds are optional integers and \<open>topics\<close> is a sequence
  of topic values; the source reads them with \<open>??\<close> defaults and tests each topic for being
  a string, so a bound or the topics may be missing and a topic is any value (a string,
  \<open>null\<close> or an array of strings in practice).
\<close>

record Filter =
  f_fromBlock :: "int option"
  f_toBlock :: "int option"
  f_topics :: "jsval list option"

text \<open>
  The query object of \<open>prepareEtherscanGetLogsQuery\<close>; a property whose value is
  \<open>undefined\<close> is \<open>None\<close> (axios leaves it out of the request), a topic keeps its value.
\<close>

record Query =
  q_module :: string
  q_action :: string
  q_fromBlock :: jsval
  q_toBlock :: jsval
  q_topic0 :: jsval
  q_topic1 :: jsval
  q_topic2 :: jsval
  q_topic3 :: jsval
  q_topic0_1_opr :: "string option"
  q_topic0_2_opr :: "string option"
  q_topic0_3_opr :: "string option"
  q_topic1_2_opr :: "string option"
  q_topic1_3_opr :: "string option"
  q_topic2_3_opr :: "string option"
  q_offset :: int
  q_apiKey :: "string option"
  q_page :: int

text \<open>The object \<open>formatEtherscanEvent\<close> builds.\<close>

record Log =
  l_address :: string
  l_topics :: "jsval list"
  l_data :: jsval
  l_transactionHash :: jsval
  l_blockNumber :: jsnum
  l_transactionIndex :: jsnum
  l_logIndex :: jsnum
  l_timestamp :: jsnum

text \<open>
  What the source imports and \<open>src/\<close> does not hold, taken as parameters: the chain
  configuration of \<open>lib/utils/chains\<close> and \<open>getAddress\<close> of viem, which throws on a value
  that is not an address and returns the checksummed address otherwise.
\<close>

record env =
  ETHERSCAN_SUPPORTED_CHAINS :: "int list"
  getChainApiUrl :: "int \<Rightarrow> string"
  getChainApiKey :: "int \<Rightarrow> string option"
  getAddress :: "jsval \<Rightarrow> error + string"

section \<open>prepareEtherscanGetLogsQuery\<close>

text \<open>An element of an array destructuring: \<open>undefined\<close> past the end.\<close>

definition element :: "jsval list \<Rightarrow> nat \<Rightarrow> jsval" where
  "element xs i = (if i < length xs then xs ! i else JUndefined)"

text \<open>\<open>typeof topic === 'string' ? topic.toLowerCase() : topic\<close>\<close>

fun lowerTopic :: "jsval \<Rightarrow> jsval" where
  "lowerTopic (JStr s) = JStr (toLowerCase s)"
| "lowerTopic v = v"

text \<open>\<open>a && b ? 'and' : undefined\<close>\<close>

definition opr :: "jsval \<Rightarrow> jsval \<Rightarrow> string option" where
  "opr a b = (if truthy a \<and> truthy b then Some ''and'' else None)"

definition prepareEtherscanGetLogsQuery :: "Filter \<Rightarrow> int \<Rightarrow> string option \<Rightarrow> Query" where
  "prepareEtherscanGetLogsQuery fltr page apiKey =
     (let ts = map lowerTopic (case f_topics fltr of None \<Rightarrow> [] | Some xs \<Rightarrow> xs);
          topic0 = element ts 0;
          topic1 = element ts 1;
          topic2 = element ts 2;
          topic3 = element ts 3
      in \<lparr> q_module = ''logs'',
           q_action = ''getLogs'',
           q_fromBlock = (case f_fromBlock fltr of None \<Rightarrow> JNum 0 | Some b \<Rightarrow> JNum b),
           q_toBlock = (case f_toBlock fltr of None \<Rightarrow> JStr ''latest'' | Some b \<Rightarrow> JNum b),
           q_topic0 = topic0,
           q_topic1 = topic1,
           q_topic2 = topic2,
           q_topic3 = topic3,
           q_topic0_1_opr = opr topic0 topic1,
           q_topic0_2_opr = opr topic0 topic2,
           q_topic0_3_opr = opr topic0 topic3,
           q_topic1_2_opr = opr topic1 topic2,
           q_topic1_3_opr = opr topic1 topic3,
           q_topic2_3_opr = opr topic2 topic3,
           q_offset = 1000,
           q_apiKey = apiKey,
           q_page = page \<rparr>)"

section \<open>formatEtherscanEvent\<close>

text \<open>
  The properties of the object literal are evaluated in order: reading a property of
  \<open>undefined\<close> or \<open>null\<close> throws, then \<open>getAddress\<close> may throw, then \<open>topics.filter\<close> throws
  unless \<open>topics\<close> is an array, then each \<open>Number.parseInt\<close> throws when its argument
  cannot be converted to a string. The timestamp is read from the property \<open>timeStamp\<close>.
\<close>

definition formatEtherscanEvent :: "env \<Rightarrow> jsval \<Rightarrow> error + Log" where
  "formatEtherscanEvent ev etherscanLog =
     (case getProp etherscanLog ''address'' of
        Inl e \<Rightarrow> Inl e
      | Inr a \<Rightarrow>
     (case getAddress ev a of
        Inl e \<Rightarrow> Inl e
      | Inr addr \<Rightarrow>
     (case arrayFilter truthy (propOf etherscanLog ''topics'') of
        Inl e \<Rightarrow> Inl e
      | Inr ts \<Rightarrow>
     (case parseIntOf (propOf etherscanLog ''blockNumber'') 16 of
        Inl e \<Rightarrow> Inl e
      | Inr blockNumber \<Rightarrow>
     (case parseIntOf (propOf etherscanLog ''transactionIndex'') 16 of
        Inl e \<Rightarrow> Inl e
      | Inr transactionIndex \<Rightarrow>
     (case parseIntOf (propOf etherscanLog ''logIndex'') 16 of
        Inl e \<Rightarrow> Inl e
      | Inr logIndex \<Rightarrow>
     (case parseIntOf (propOf etherscanLog ''timeStamp'') 16 of
        Inl e \<Rightarrow> Inl e
      | Inr timestamp \<Rightarrow>
          Inr \<lparr> l_address = addr,
                l_topics = ts,
                l_data = propOf etherscanLog ''data'',
                l_transactionHash = propOf etherscanLog ''transactionHash'',
                l_blockNumber = blockNumber,
                l_transactionIndex = transactionIndex,
                l_logIndex = logIndex,
                l_timestamp = timestamp \<rparr>)))))))"

section \<open>The library function getAddress\<close>

text \<open>
  \<open>getAddress\<close> of viem, the function the running program passes for the parameter
  \<open>getAddress\<close>, so that the sample runs below are runs of the program: it throws
  \<open>InvalidAddressError\<close> on a value whose text is not \<open>0x\<close> and 40 hexadecimal digits, and
  returns the address with the capitals of its checksum, which are read from the
  Keccak-256 hash of the 40 digits in lower case.
\<close>

unbundle bit_operations_syntax

type_synonym lane = "64 word"

definition roundConstants :: "lane list" where
  "roundConstants =
     [0x0000000000000001, 0x0000000000008082, 0x800000000000808A, 0x8000000080008000,
      0x000000000000808B, 0x0000000080000001, 0x8000000080008081, 0x8000000000008009,
      0x000000000000008A, 0x0000000000000088, 0x0000000080008009, 0x000000008000000A,
      0x000000008000808B, 0x800000000000008B, 0x8000000000008089, 0x8000000000008003,
      0x8000000000008002, 0x8000000000000080, 0x000000000000800A, 0x800000008000000A,
      0x8000000080008081, 0x8000000000008080, 0x0000000080000001, 0x8000000080008008]"

text \<open>The rotation of the lane at \<open>x + 5 * y\<close>.\<close>

definition rotationOffsets :: "nat list" where
  "rotationOffsets =
     [0, 1, 62, 28, 27,
      36, 44, 6, 55, 20,
      3, 10, 43, 25, 39,
      41, 45, 15, 21, 8,
      18, 2, 61, 56, 14]"

definition lane_at :: "lane list \<Rightarrow> nat \<Rightarrow> nat \<Rightarrow> lane" where
  "lane_at a x y = a ! (x mod 5 + 5 * (y mod 5))"

definition theta :: "lane list \<Rightarrow> lane list" where
  "theta a =
     (let c = (\<lambda>x. lane_at a x 0 XOR lane_at a x 1 XOR lane_at a x 2 XOR lane_at a x 3 XOR
                    lane_at a x 4);
          d = (\<lambda>x. c (x + 4) XOR word_rotl 1 (c (x + 1)))
      in map (\<lambda>i. a ! i XOR d (i mod 5)) [0..<25])"

definition rhoPi :: "lane list \<Rightarrow> lane list" where
  "rhoPi a =
     map (\<lambda>i. let x' = i mod 5; y' = i div 5;
                  x = (x' + 3 * y') mod 5; y = x'
              in word_rotl (rotationOffsets ! (x + 5 * y)) (lane_at a x y))
       [0..<25]"

definition chi :: "lane list \<Rightarrow> lane list" where
  "chi b =
     map (\<lambda>i. let x = i mod 5; y = i div 5
              in lane_at b x y XOR (NOT (lane_at b (x + 1) y) AND lane_at b (x + 2) y))
       [0..<25]"

definition iota :: "lane \<Rightarrow> lane list \<Rightarrow> lane list" where
  "iota rc a = (a ! 0 XOR rc) # tl a"

definition keccak_f :: "lane list \<Rightarrow> lane list" where
  "keccak_f a = foldl (\<lambda>s rc. iota rc (chi (rhoPi (theta s)))) a roundConstants"

definition lane_of_bytes :: "8 word list \<Rightarrow> lane" where
  "lane_of_bytes bs = foldr (\<lambda>b w. push_bit 8 w OR ucast b) bs 0"

definition bytes_of_lane :: "lane \<Rightarrow> 8 word list" where
  "bytes_of_lane w = map (\<lambda>i. ucast (drop_bit (8 * i) w)) [0..<8]"

fun chunks :: "nat \<Rightarrow> 'a list \<Rightarrow> 'a list list" where
  "chunks n [] = []"
| "chunks n (x # xs) =
     (if n = 0 then [] else take n (x # xs) # chunks n (drop n (x # xs)))"

text \<open>The padding of Keccak, to blocks of 136 bytes.\<close>

definition pad :: "8 word list \<Rightarrow> 8 word list" where
  "pad msg =
     (let q = 136 - length msg mod 136
      in if q = 1 then msg @ [0x81] else msg @ [0x01] @ replicate (q - 2) 0 @ [0x80])"

definition absorb :: "lane list \<Rightarrow> 8 word list \<Rightarrow> lane list" where
  "absorb a block =
     keccak_f
       (map (\<lambda>i. if i < 17 then a ! i XOR lane_of_bytes (take 8 (drop (8 * i) block)) else a ! i)
          [0..<25])"

definition keccak256 :: "8 word list \<Rightarrow> 8 word list" where
  "keccak256 msg =
     take 32 (concat (map bytes_of_lane (foldl absorb (replicate 25 0) (chunks 136 (pad msg)))))"

text \<open>The test of the regular expression \<open>/^0x[a-fA-F0-9]{40}$/\<close>.\<close>

definition isAddress :: "string \<Rightarrow> bool" where
  "isAddress s =
     (length s = 42 \<and> take 2 s = ''0x'' \<and>
      list_all (\<lambda>c. c \<in> set ''0123456789abcdefABCDEF'') (drop 2 s))"

text \<open>\<open>c.toUpperCase()\<close> for a digit of an address in lower case.\<close>

definition upperHexChar :: "char \<Rightarrow> char" where
  "upperHexChar c = (case lookupChar c ''abcdef'' ''ABCDEF'' of None \<Rightarrow> c | Some u \<Rightarrow> u)"

text \<open>The half byte of the hash that decides the case of the digit at position \<open>i\<close>.\<close>

definition hashNibble :: "8 word list \<Rightarrow> nat \<Rightarrow> 8 word" where
  "hashNibble hash i =
     (if even i then drop_bit 4 (hash ! (i div 2)) else hash ! (i div 2) AND 0x0f)"

text \<open>\<open>checksumAddress(address)\<close>, for an address that passed the test (40 digits).\<close>

definition checksumAddress :: "string \<Rightarrow> string" where
  "checksumAddress address =
     (let hexAddress = toLowerCase (drop 2 address);
          hash = keccak256 (map (\<lambda>c. of_nat (of_char c)) hexAddress)
      in ''0x'' @
         map (\<lambda>i. if 8 \<le> hashNibble hash i then upperHexChar (hexAddress ! i)
                  else hexAddress ! i)
           [0..<40])"

text \<open>
  \<open>getAddress(address)\<close>: the test converts its argument to a string, which may throw; a
  value that is not a string and passes the test (an array that holds one address) has
  none of the string methods the function calls next, which is a \<open>TypeError\<close>.
\<close>

definition viem_getAddress :: "jsval \<Rightarrow> error + string" where
  "viem_getAddress v =
     (case toString v of
        Inl e \<Rightarrow> Inl e
      | Inr s \<Rightarrow>
          if \<not> isAddress s then Inl InvalidAddressError
          else (case v of JStr a \<Rightarrow> Inr (checksumAddress a) | _ \<Rightarrow> Inl TypeError))"

section \<open>The HTTP calls\<close>

text \<open>
  What one \<open>axios.get\<close> comes to: a rejection with an error message, or a response with
  its parsed body (\<open>data\<close>). A run of the program is taken against the sequence of the
  outcomes of its future calls, each call consuming the next one; the run is \<open>Pending\<close>
  when the sequence ends while a call is awaited. A run returns its outcome, the outcomes
  left, and the requests it sent, in order.
\<close>

datatype http_outcome = HttpError string | HttpOk jsval

datatype 'a outcome = Returned 'a | Thrown error | Pending

type_synonym request = "string \<times> Query"

type_synonym 'a run = "'a outcome \<times> http_outcome list \<times> request list"

text \<open>
  Modelled from the spec: \<open>RequestQueue.add\<close>, of the class \<open>RequestQueue\<close> that is not among
  the sources. By section 4.1 the queue only decides when a submitted operation starts and
  hands the operation's result or failure to its submitter, so the outcome of
  \<open>queue.add(operation)\<close> is the outcome of the operation.
\<close>

definition queue_add :: "http_outcome \<Rightarrow> http_outcome" where
  "queue_add operation = operation"

text \<open>
  \<open>retryOn429(fn)\<close> for the \<open>fn\<close> of \<open>getEvents\<close>, \<open>() => queue.add(() => axios.get(apiUrl,
  { params: query }))\<close>. The first argument tells whether the chain has a queue: without
  one \<open>queue.add\<close> is a \<open>TypeError\<close>, whose message has no \<open>429\<close>, so it is thrown again.
\<close>

fun retryOn429 :: "bool \<Rightarrow> request \<Rightarrow> http_outcome list \<Rightarrow> jsval run" where
  "retryOn429 False rq script = (Thrown TypeError, script, [])"
| "retryOn429 True rq [] = (Pending, [], [rq])"
| "retryOn429 True rq (outcome # rest) =
     (case queue_add outcome of
        HttpOk d \<Rightarrow> (Returned d, rest, [rq])
      | HttpError m \<Rightarrow>
          if str_includes m ''429''
          then (case retryOn429 True rq rest of (r, rest', sent) \<Rightarrow> (r, rest', rq # sent))
          else (Thrown (Error m), rest, [rq]))"

lemma retryOn429_consumes:
  "retryOn429 q rq script = (Returned d, rest, sent) \<Longrightarrow> length rest < length script"
proof (induction q rq script arbitrary: sent rule: retryOn429.induct)
  case (3 rq outcome rest0)
  then show ?case
    by (fastforce split: http_outcome.splits if_splits prod.splits)
qed auto

text \<open>The continuation of \<open>[...logs, ...(await this.getEvents(...))]\<close>.\<close>

fun prepend :: "request list \<Rightarrow> 'a list \<Rightarrow> 'a list run \<Rightarrow> 'a list run" where
  "prepend sent logs (Returned later, rest, sent') = (Returned (logs @ later), rest, sent @ sent')"
| "prepend sent logs (Thrown e, rest, sent') = (Thrown e, rest, sent @ sent')"
| "prepend sent logs (Pending, rest, sent') = (Pending, rest, sent @ sent')"

section \<open>EtherscanEventGetter.getEvents\<close>

text \<open>
  The tests on \<open>data.result\<close> in the order of the source: the length first, then the string
  with its two markers, then the array. In the branch of the full page the array literal
  normalizes the page before the recursive call is made. The retry after the rate limit
  message is \<open>this.getEvents(chainId, filter)\<close>, whose page is the default, 1. The messages
  to the console are left out.
\<close>

function getEvents :: "env \<Rightarrow> int \<Rightarrow> Filter \<Rightarrow> int \<Rightarrow> http_outcome list \<Rightarrow> Log list run" where
  "getEvents ev chainId fltr page script =
     (let apiUrl = getChainApiUrl ev chainId;
          apiKey = getChainApiKey ev chainId;
          queue = (chainId \<in> set (ETHERSCAN_SUPPORTED_CHAINS ev));
          query = prepareEtherscanGetLogsQuery fltr page apiKey
      in case retryOn429 queue (apiUrl, query) script of
           (Pending, rest, sent) \<Rightarrow> (Pending, rest, sent)
         | (Thrown e, rest, sent) \<Rightarrow> (Thrown e, rest, sent)
         | (Returned dat, rest, sent) \<Rightarrow>
             (case getProp dat ''result'' of
                Inl e \<Rightarrow> (Thrown e, rest, sent)
              | Inr result \<Rightarrow>
                  if optLength result = JNum 1000 then
                    (if f_fromBlock fltr = f_toBlock fltr then
                       (case arrayMap (formatEtherscanEvent ev) result of
                          Inl e \<Rightarrow> (Thrown e, rest, sent)
                        | Inr logs \<Rightarrow>
                            prepend sent logs (getEvents ev chainId fltr (page + 1) rest))
                     else (Thrown (Error ''Log response size exceeded''), rest, sent))
                  else
                    (case result of
                       JStr s \<Rightarrow>
                         if str_includes s ''Max rate limit reached'' then
                           prepend sent [] (getEvents ev chainId fltr 1 rest)
                         else if str_includes s ''Query Timeout occured'' then
                           (Thrown (Error ''Log response size exceeded''), rest, sent)
                         else (Thrown (Error s), rest, sent)
                     | _ \<Rightarrow>
                         if \<not> isArray result then
                           (Thrown (Error ''Could not retrieve event logs from the blockchain''),
                            rest, sent)
                         else
                           (case arrayMap (formatEtherscanEvent ev) result of
                              Inl e \<Rightarrow> (Thrown e, rest, sent)
                            | Inr logs \<Rightarrow> (Returned logs, rest, sent)))))"
  by pat_completeness auto
termination
  by (relation "measure (\<lambda>(ev, chainId, fltr, page, script). length script)")
     (auto dest: retryOn429_consumes [OF sym])

declare getEvents.simps [simp del]

section \<open>Vocabulary of the statements\<close>

text \<open>The chain has a request queue: it is one of the supported chains.\<close>

definition hasQueue :: "env \<Rightarrow> int \<Rightarrow> bool" where
  "hasQueue ev chainId = (chainId \<in> set (ETHERSCAN_SUPPORTED_CHAINS ev))"

text \<open>The request \<open>getEvents\<close> sends for a page.\<close>

definition requestOf :: "env \<Rightarrow> int \<Rightarrow> Filter \<Rightarrow> int \<Rightarrow> request" where
  "requestOf ev chainId fltr page =
     (getChainApiUrl ev chainId,
      prepareEtherscanGetLogsQuery fltr page (getChainApiKey ev chainId))"

text \<open>The requests for \<open>n\<close> consecutive pages, from \<open>page\<close> on.\<close>

fun pageRequests :: "env \<Rightarrow> int \<Rightarrow> Filter \<Rightarrow> int \<Rightarrow> nat \<Rightarrow> request list" where
  "pageRequests ev chainId fltr page 0 = []"
| "pageRequests ev chainId fltr page (Suc n) =
     requestOf ev chainId fltr page # pageRequests ev chainId fltr (page + 1) n"

text \<open>
  The call of \<open>getEvents\<close> for \<open>page\<close> receives a response (after any retries on 429) whose
  \<open>result\<close> field is \<open>result\<close>, having sent the requests \<open>sent\<close> and leaving the outcomes
  \<open>rest\<close> to later calls.
\<close>

definition responds ::
  "env \<Rightarrow> int \<Rightarrow> Filter \<Rightarrow> int \<Rightarrow> http_outcome list \<Rightarrow> jsval \<Rightarrow> http_outcome list \<Rightarrow>
   request list \<Rightarrow> bool"
where
  "responds ev chainId fltr page script result rest sent =
     (case retryOn429 (hasQueue ev chainId) (requestOf ev chainId fltr page) script of
        (Returned dat, rest', sent') \<Rightarrow>
          getProp dat ''result'' = Inr result \<and> rest' = rest \<and> sent' = sent
      | (Thrown e, rest', sent') \<Rightarrow> False
      | (Pending, rest', sent') \<Rightarrow> False)"

text \<open>The error the caller answers by bisecting the block range.\<close>

definition sizeExceeded :: error where
  "sizeExceeded = Error ''Log response size exceeded''"

text \<open>The provider's bodies: a page of records, and a message in the \<open>result\<close> field.\<close>

definition pageBody :: "jsval list \<Rightarrow> jsval" where
  "pageBody xs =
     JObj [(''status'', JStr ''1''), (''message'', JStr ''OK''), (''result'', JArr xs)]"

definition errorBody :: "string \<Rightarrow> jsval" where
  "errorBody s =
     JObj [(''status'', JStr ''0''), (''message'', JStr ''NOTOK''), (''result'', JStr s)]"

subsection \<open>Topics and combinators\<close>

text \<open>
  The topic of a filter at a position (\<open>undefined\<close> when the filter has none there), and
  whether it is present: neither missing, \<open>null\<close> nor empty, which is what the source
  tests with \<open>&&\<close>.
\<close>

definition topicAt :: "Filter \<Rightarrow> nat \<Rightarrow> jsval" where
  "topicAt fltr i = element (case f_topics fltr of None \<Rightarrow> [] | Some ts \<Rightarrow> ts) i"

definition topicPresent :: "Filter \<Rightarrow> nat \<Rightarrow> bool" where
  "topicPresent fltr i = truthy (topicAt fltr i)"

text \<open>The six combinator parameters of a query, for the pairs 0-1, 0-2, 0-3, 1-2, 1-3, 2-3.\<close>

definition combinators :: "Query \<Rightarrow> string option list" where
  "combinators q =
     [q_topic0_1_opr q, q_topic0_2_opr q, q_topic0_3_opr q,
      q_topic1_2_opr q, q_topic1_3_opr q, q_topic2_3_opr q]"

text \<open>The spec's rule for a pair of positions: \<open>and\<close> exactly when both topics are present.\<close>

definition expectedCombinator :: "Filter \<Rightarrow> nat \<times> nat \<Rightarrow> string option" where
  "expectedCombinator fltr ij =
     (if topicPresent fltr (fst ij) \<and> topicPresent fltr (snd ij) then Some ''and'' else None)"

subsection \<open>Records and their integer fields\<close>

text \<open>
  The hexadecimal digits \<open>Number.parseInt(s, 16)\<close> reads from a text: those that follow the
  white space, the sign and the \<open>0x\<close> prefix, if any.
\<close>

definition hexDigitsRead :: "string \<Rightarrow> string" where
  "hexDigitsRead s =
     (let s0 = dropWhile isWhiteSpace s;
          s1 = (if take 1 s0 = ''-'' \<or> take 1 s0 = ''+'' then drop 1 s0 else s0);
          s2 = (if take 2 s1 = ''0x'' \<or> take 2 s1 = ''0X'' then drop 2 s1 else s1)
      in takeWhile (isRadixDigit 16) s2)"

text \<open>
  The properties of a record that hold the four integer-valued fields of a log, in the
  order of the fields, and the fields of a log in that order.
\<close>

definition integerProps :: "string list" where
  "integerProps = [''blockNumber'', ''transactionIndex'', ''logIndex'', ''timeStamp'']"

definition integerFields :: "Log \<Rightarrow> jsnum list" where
  "integerFields log =
     [l_blockNumber log, l_transactionIndex log, l_logIndex log, l_timestamp log]"

text \<open>
  What \<open>Number.parseInt\<close> makes of a property of a record in radix 16, when the property
  has a text: \<open>None\<close> when its conversion to a string throws.
\<close>

definition parsedField :: "jsval \<Rightarrow> string \<Rightarrow> jsnum option" where
  "parsedField raw k =
     (case toString (propOf raw k) of Inl e \<Rightarrow> None | Inr s \<Rightarrow> Some (parseInt s 16))"

text \<open>
  A record whose address and topics normalize: it is not \<open>undefined\<close> or \<open>null\<close>,
  \<open>getAddress\<close> accepts its address and its topics are an array.
\<close>

definition accepted :: "env \<Rightarrow> jsval \<Rightarrow> bool" where
  "accepted ev raw =
     (\<not> nullish raw \<and> \<not> isl (getAddress ev (propOf raw ''address'')) \<and>
      isArray (propOf raw ''topics''))"

text \<open>A record whose four integer-valued properties have a text.\<close>

definition textual :: "jsval \<Rightarrow> bool" where
  "textual raw = list_all (\<lambda>k. parsedField raw k \<noteq> None) integerProps"

text \<open>The elements of an array.\<close>

fun elements :: "jsval \<Rightarrow> jsval list" where
  "elements (JArr xs) = xs"
| "elements v = []"

subsection \<open>Sample inputs\<close>

text \<open>
  An environment to run the functions in: one supported chain, no API key, and the
  \<open>getAddress\<close> of viem.
\<close>

definition sample_env :: env where
  "sample_env =
     \<lparr> ETHERSCAN_SUPPORTED_CHAINS = [1],
       getChainApiUrl = (\<lambda>c. ''https://api.etherscan.io/api''),
       getChainApiKey = (\<lambda>c. None),
       getAddress = viem_getAddress \<rparr>"

definition single_block :: Filter where
  "single_block =
     \<lparr> f_fromBlock = Some 5, f_toBlock = Some 5, f_topics = Some [JStr ''0xDDF2''] \<rparr>"

definition block_range :: Filter where
  "block_range = \<lparr> f_fromBlock = Some 5, f_toBlock = Some 9, f_topics = None \<rparr>"

text \<open>
  A record and the log it normalizes to. The address has no letter, so its checksum
  leaves it as it is.
\<close>

definition sample_record :: jsval where
  "sample_record =
     JObj [(''address'', JStr ''0x0000000000000000000000000000000000001010''),
           (''topics'', JArr [JStr ''0xabc'', JStr [], JStr ''0xdef'']),
           (''data'', JStr ''0x''),
           (''blockNumber'', JStr ''0x1a''),
           (''timeStamp'', JStr ''0x5''),
           (''logIndex'', JStr ''0x1''),
           (''transactionHash'', JStr ''0xff''),
           (''transactionIndex'', JStr ''0x2'')]"

definition sample_log :: Log where
  "sample_log =
     \<lparr> l_address = ''0x0000000000000000000000000000000000001010'',
       l_topics = [JStr ''0xabc'', JStr ''0xdef''],
       l_data = JStr ''0x'', l_transactionHash = JStr ''0xff'', l_blockNumber = Num 26,
       l_transactionIndex = Num 2, l_logIndex = Num 1, l_timestamp = Num 5 \<rparr>"

text \<open>A record whose block number and timestamp are not hexadecimal text.\<close>

definition bad_record :: jsval where
  "bad_record =
     JObj [(''address'', JStr ''0x0000000000000000000000000000000000001010''),
           (''topics'', JArr [JStr ''0xabc'']),
           (''data'', JStr ''0x''),
           (''blockNumber'', JStr ''zz''),
           (''timeStamp'', JStr []),
           (''logIndex'', JStr ''0x1''),
           (''transactionHash'', JStr ''0xff''),
           (''transactionIndex'', JStr ''0x2'')]"

definition bad_log :: Log where
  "bad_log =
     \<lparr> l_address = ''0x0000000000000000000000000000000000001010'',
       l_topics = [JStr ''0xabc''],
       l_data = JStr ''0x'', l_transactionHash = JStr ''0xff'', l_blockNumber = NaN,
       l_transactionIndex = Num 2, l_logIndex = Num 1, l_timestamp = NaN \<rparr>"

text \<open>
  A record whose block number cannot be converted to a string: an object with a property
  \<open>toString\<close> of its own.
\<close>

definition opaque_record :: jsval where
  "opaque_record =
     JObj [(''address'', JStr ''0x0000000000000000000000000000000000001010''),
           (''topics'', JArr []),
           (''data'', JStr ''0x''),
           (''blockNumber'', JObj [(''toString'', JNum 1)]),
           (''timeStamp'', JStr ''0x5''),
           (''logIndex'', JStr ''0x1''),
           (''transactionHash'', JStr ''0xff''),
           (''transactionIndex'', JStr ''0x2'')]"

section \<open>Numbers and addresses\<close>

lemma bitLength_le_iff: "bitLength m \<le> k \<longleftrightarrow> m < 2 ^ k"
proof (induction m arbitrary: k rule: bitLength.induct)
  case (1 n)
  show ?case
  proof (cases "n = 0")
    case True
    then show ?thesis by (simp add: bitLength.simps)
  next
    case False
    show ?thesis
    proof (cases k)
      case 0
      with False show ?thesis by (simp add: bitLength.simps)
    next
      case (Suc k')
      have "bitLength n \<le> Suc k' \<longleftrightarrow> bitLength (n div 2) \<le> k'"
        using False by (subst bitLength.simps) simp
      also have "\<dots> \<longleftrightarrow> n div 2 < 2 ^ k'"
        by (rule "1.IH" [OF False])
      also have "\<dots> \<longleftrightarrow> n < 2 ^ Suc k'"
        by (simp add: less_mult_imp_div_less div_less_iff_less_mult mult.commute)
      finally show ?thesis using Suc by simp
    qed
  qed
qed

lemma roundToDouble_safe: "m < 2 ^ 53 \<Longrightarrow> roundToDouble m = Some m"
  by (simp add: roundToDouble_def Let_def bitLength_le_iff)

lemma toNumber_safe: "\<bar>i\<bar> < 2 ^ 53 \<Longrightarrow> toNumber i = Num i"
proof -
  assume a: "\<bar>i\<bar> < 2 ^ 53"
  then have "nat \<bar>i\<bar> < 2 ^ 53"
    by (metis nat_less_numeral_power_cancel_iff)
  then have "roundToDouble (nat \<bar>i\<bar>) = Some (nat \<bar>i\<bar>)"
    by (rule roundToDouble_safe)
  then show ?thesis
    by (cases "i < 0") (simp_all add: toNumber_def)
qed

lemma toNumber_not_NaN [simp]: "toNumber i \<noteq> NaN"
  by (simp add: toNumber_def split: option.splits)


lemma parseInt_hex: "parseInt ''0x1a'' 16 = Num 26"
  by (simp add: parseInt_def isWhiteSpace_def isRadixDigit_def digitValue_def toLowerChar_def
      toNumber_safe)


lemma parseInt_NaN_iff: "(parseInt s 16 = NaN) = (hexDigitsRead s = [])"
  by (simp add: parseInt_def hexDigitsRead_def Let_def)


lemma lower_digit:
  assumes "c \<in> set ''0123456789''"
  shows "toLowerChar c = c \<and> upperHexChar c = c"
proof -
  from assms have "c = CHR ''0'' \<or> c = CHR ''1'' \<or> c = CHR ''2'' \<or> c = CHR ''3'' \<or> c = CHR ''4'' \<or>
      c = CHR ''5'' \<or> c = CHR ''6'' \<or> c = CHR ''7'' \<or> c = CHR ''8'' \<or> c = CHR ''9''"
    by simp
  then show ?thesis
    by (elim disjE) (simp_all add: toLowerChar_def upperHexChar_def)
qed

lemma checksumAddress_digits:
  assumes "length a = 42" and "list_all (\<lambda>c. c \<in> set ''0123456789'') (drop 2 a)"
  shows "checksumAddress a = ''0x'' @ drop 2 a"
proof -
  let ?h = "drop 2 a"
  have low: "toLowerCase ?h = ?h"
    using assms(2) unfolding toLowerCase_def
    by (intro map_idI) (simp add: list_all_iff lower_digit)
  have len: "length ?h = 40"
    using assms(1) by simp
  have "map (\<lambda>i. if 8 \<le> hashNibble hash i then upperHexChar (?h ! i) else ?h ! i) [0..<40] = ?h"
    for hash
  proof -
    have "upperHexChar (?h ! i) = ?h ! i" if "i < 40" for i
      using assms(2) that len lower_digit [of "?h ! i"]
      by (simp add: list_all_length)
    then have "map (\<lambda>i. if 8 \<le> hashNibble hash i then upperHexChar (?h ! i) else ?h ! i) [0..<40] =
        map (\<lambda>i. ?h ! i) [0..<40]"
      by (intro map_cong) simp_all
    also have "\<dots> = ?h"
      using len map_nth [of ?h] by simp
    finally show ?thesis .
  qed
  then show ?thesis
    by (simp add: checksumAddress_def Let_def low)
qed

lemma sample_address:
  "viem_getAddress (JStr ''0x0000000000000000000000000000000000001010'') =
     Inr ''0x0000000000000000000000000000000000001010''"
proof -
  have "checksumAddress ''0x0000000000000000000000000000000000001010'' =
      ''0x0000000000000000000000000000000000001010''"
    by (subst checksumAddress_digits) simp_all
  then show ?thesis
    by (simp add: viem_getAddress_def isAddress_def)
qed

lemma format_sample_record: "formatEtherscanEvent sample_env sample_record = Inr sample_log"
  by (simp add: formatEtherscanEvent_def sample_env_def sample_record_def sample_log_def
      getProp_def sample_address parseIntOf_def parseInt_def isWhiteSpace_def isRadixDigit_def
      digitValue_def toLowerChar_def toNumber_safe)

lemma format_bad_record: "formatEtherscanEvent sample_env bad_record = Inr bad_log"
  by (simp add: formatEtherscanEvent_def sample_env_def bad_record_def bad_log_def
      getProp_def sample_address parseIntOf_def parseInt_def isWhiteSpace_def isRadixDigit_def
      digitValue_def toLowerChar_def toNumber_safe)

section \<open>One call of getEvents, by the response it receives\<close>

lemma str_includes_sublist: "str_includes s sub = sublist sub s"
  by (induction s) (simp_all add: sublist_Cons_right)

lemma respondsD:
  assumes "responds ev chainId fltr page script result rest sent"
  obtains dat where
    "retryOn429 (chainId \<in> set (ETHERSCAN_SUPPORTED_CHAINS ev))
       (getChainApiUrl ev chainId,
        prepareEtherscanGetLogsQuery fltr page (getChainApiKey ev chainId)) script =
     (Returned dat, rest, sent)"
    "getProp dat ''result'' = Inr result"
  using assms
  by (auto simp: responds_def hasQueue_def requestOf_def split: prod.splits outcome.splits)

lemma getEvents_full_page:
  assumes "responds ev chainId fltr page script result rest sent"
      and "optLength result = JNum 1000"
  shows "getEvents ev chainId fltr page script =
           (if f_fromBlock fltr = f_toBlock fltr
            then (case arrayMap (formatEtherscanEvent ev) result of
                    Inl e \<Rightarrow> (Thrown e, rest, sent)
                  | Inr logs \<Rightarrow> prepend sent logs (getEvents ev chainId fltr (page + 1) rest))
            else (Thrown sizeExceeded, rest, sent))"
proof -
  from assms(1) obtain dat where
    r: "retryOn429 (chainId \<in> set (ETHERSCAN_SUPPORTED_CHAINS ev))
       (getChainApiUrl ev chainId,
        prepareEtherscanGetLogsQuery fltr page (getChainApiKey ev chainId)) script =
     (Returned dat, rest, sent)"
    and p: "getProp dat ''result'' = Inr result"
    by (rule respondsD)
  show ?thesis
    by (subst getEvents.simps) (simp add: Let_def r p assms(2) sizeExceeded_def)
qed

lemma getEvents_string:
  assumes "responds ev chainId fltr page script (JStr s) rest sent"
      and "length s \<noteq> 1000"
  shows "getEvents ev chainId fltr page script =
           (if str_includes s ''Max rate limit reached''
            then prepend sent [] (getEvents ev chainId fltr 1 rest)
            else if str_includes s ''Query Timeout occured''
            then (Thrown sizeExceeded, rest, sent)
            else (Thrown (Error s), rest, sent))"
proof -
  from assms(1) obtain dat where
    r: "retryOn429 (chainId \<in> set (ETHERSCAN_SUPPORTED_CHAINS ev))
       (getChainApiUrl ev chainId,
        prepareEtherscanGetLogsQuery fltr page (getChainApiKey ev chainId)) script =
     (Returned dat, rest, sent)"
    and p: "getProp dat ''result'' = Inr (JStr s)"
    by (rule respondsD)
  have l: "optLength (JStr s) \<noteq> JNum 1000"
    using assms(2) by (simp add: optLength_def)
  show ?thesis
    by (subst getEvents.simps) (simp add: Let_def r p l sizeExceeded_def)
qed

lemma getEvents_partial_page:
  assumes "responds ev chainId fltr page script (JArr xs) rest sent"
      and "length xs \<noteq> 1000"
  shows "getEvents ev chainId fltr page script =
           (case mapE (formatEtherscanEvent ev) xs of
              Inl e \<Rightarrow> (Thrown e, rest, sent)
            | Inr logs \<Rightarrow> (Returned logs, rest, sent))"
proof -
  from assms(1) obtain dat where
    r: "retryOn429 (chainId \<in> set (ETHERSCAN_SUPPORTED_CHAINS ev))
       (getChainApiUrl ev chainId,
        prepareEtherscanGetLogsQuery fltr page (getChainApiKey ev chainId)) script =
     (Returned dat, rest, sent)"
    and p: "getProp dat ''result'' = Inr (JArr xs)"
    by (rule respondsD)
  have l: "optLength (JArr xs) \<noteq> JNum 1000"
    using assms(2) by (simp add: optLength_def)
  show ?thesis
    by (subst getEvents.simps) (simp add: Let_def r p l)
qed

lemma retryOn429_sent:
  "retryOn429 q rq script = (r, rest, sent) \<Longrightarrow> set sent \<subseteq> {rq} \<and> (q \<longrightarrow> sent \<noteq> [])"
proof (induction q rq script arbitrary: r rest sent rule: retryOn429.induct)
  case (3 rq outcome rest0)
  then show ?case
    by (fastforce split: http_outcome.splits if_splits prod.splits)
qed auto

lemma prepend_sent: "snd (snd (prepend sent logs r)) = sent @ snd (snd r)"
  by (cases "(sent, logs, r)" rule: prepend.cases) auto

lemma getEvents_sends:
  assumes "hasQueue ev chainId"
  shows "snd (snd (getEvents ev chainId fltr page script)) \<noteq> []"
proof -
  obtain r rest sent where
    r: "retryOn429 (chainId \<in> set (ETHERSCAN_SUPPORTED_CHAINS ev))
       (getChainApiUrl ev chainId,
        prepareEtherscanGetLogsQuery fltr page (getChainApiKey ev chainId)) script =
     (r, rest, sent)"
    by (metis prod_cases3)
  with assms have ne: "sent \<noteq> []"
    using retryOn429_sent [OF r] by (simp add: hasQueue_def)
  show ?thesis
    by (subst getEvents.simps)
       (simp add: Let_def r ne prepend_sent
             split: outcome.splits sum.splits jsval.splits)
qed

lemma responds_hasQueue:
  "responds ev chainId fltr page script result rest sent \<Longrightarrow> hasQueue ev chainId"
  by (cases "hasQueue ev chainId") (auto simp: responds_def)

lemma responds_sent:
  assumes "responds ev chainId fltr page script result rest sent"
  shows "set sent \<subseteq> {requestOf ev chainId fltr page}"
  using assms retryOn429_sent [of "hasQueue ev chainId" "requestOf ev chainId fltr page" script]
  by (auto simp: responds_def split: prod.splits outcome.splits)

section \<open>Pagination\<close>

lemma prepend_prepend:
  "prepend s1 l1 (prepend s2 l2 r) = prepend (s1 @ s2) (l1 @ l2) r"
  by (cases "(s2, l2, r)" rule: prepend.cases) auto

lemma prepend_empty: "prepend [] [] r = r"
  by (cases "([] :: request list, [] :: 'a list, r)" rule: prepend.cases) auto

lemma responds_page:
  assumes "hasQueue ev chainId"
  shows "responds ev chainId fltr page (HttpOk (pageBody xs) # rest) (JArr xs) rest
           [requestOf ev chainId fltr page]"
  using assms by (simp add: responds_def queue_add_def pageBody_def getProp_def)

lemma responds_error:
  assumes "hasQueue ev chainId"
  shows "responds ev chainId fltr page (HttpOk (errorBody s) # rest) (JStr s) rest
           [requestOf ev chainId fltr page]"
  using assms by (simp add: responds_def queue_add_def errorBody_def getProp_def)

lemma pageRequests_append:
  "pageRequests ev chainId fltr page (m + n) =
     pageRequests ev chainId fltr page m @ pageRequests ev chainId fltr (page + int m) n"
  by (induction m arbitrary: page) (simp_all add: add.assoc)

lemma full_pages_run:
  assumes single: "f_fromBlock fltr = f_toBlock fltr"
      and queue: "hasQueue ev chainId"
      and full: "\<forall>xs\<in>set pages. length xs = 1000 \<and> mapE (formatEtherscanEvent ev) xs = Inr (g xs)"
  shows "getEvents ev chainId fltr page (map (\<lambda>xs. HttpOk (pageBody xs)) pages @ rest) =
           prepend (pageRequests ev chainId fltr page (length pages)) (concat (map g pages))
             (getEvents ev chainId fltr (page + int (length pages)) rest)"
  using full
proof (induction pages arbitrary: page)
  case Nil
  show ?case by (simp add: prepend_empty)
next
  case (Cons xs pages)
  let ?script = "map (\<lambda>xs. HttpOk (pageBody xs)) pages @ rest"
  have len: "optLength (JArr xs) = JNum 1000"
    using Cons.prems by (simp add: optLength_def)
  have norm: "arrayMap (formatEtherscanEvent ev) (JArr xs) = Inr (g xs)"
    using Cons.prems by simp
  have "getEvents ev chainId fltr page (HttpOk (pageBody xs) # ?script) =
          prepend [requestOf ev chainId fltr page] (g xs)
            (getEvents ev chainId fltr (page + 1) ?script)"
    using getEvents_full_page [OF responds_page [OF queue] len] single norm by simp
  also have "getEvents ev chainId fltr (page + 1) ?script =
          prepend (pageRequests ev chainId fltr (page + 1) (length pages)) (concat (map g pages))
            (getEvents ev chainId fltr (page + 1 + int (length pages)) rest)"
    using Cons.prems by (intro Cons.IH) simp
  finally show ?case
    by (simp add: prepend_prepend algebra_simps)
qed

lemma mapE_replicate:
  "f x = Inr y \<Longrightarrow> mapE f (replicate n x) = Inr (replicate n y)"
  by (induction n) simp_all

text \<open>
  Claim C4. For a filter whose \<open>fromBlock\<close> equals its \<open>toBlock\<close>, on a supported chain,
  when the provider answers the successive calls with full pages (1000 records each, \<open>g\<close>
  giving the normalized records of a page): \<open>getEvents\<close> asks for the pages \<open>page\<close>,
  \<open>page + 1\<close>, ... in turn, one request each, and its outcome is that of the call for the
  page after them, with the normalized records of the full pages, in page order, in front
  of the records that call returns. When the page after them has another length, the call
  returns the normalized records of all the pages concatenated in page order.
\<close>

theorem pagination_concatenates_pages:
  assumes "f_fromBlock fltr = f_toBlock fltr"
      and "hasQueue ev chainId"
      and "\<forall>xs\<in>set pages. length xs = 1000 \<and> mapE (formatEtherscanEvent ev) xs = Inr (g xs)"
      and "length lastp \<noteq> 1000"
      and "mapE (formatEtherscanEvent ev) lastp = Inr (g lastp)"
  shows "getEvents ev chainId fltr page (map (\<lambda>xs. HttpOk (pageBody xs)) pages @ later) =
           prepend (pageRequests ev chainId fltr page (length pages)) (concat (map g pages))
             (getEvents ev chainId fltr (page + int (length pages)) later) \<and>
         getEvents ev chainId fltr page
           (map (\<lambda>xs. HttpOk (pageBody xs)) (pages @ [lastp]) @ rest) =
         (Returned (concat (map g (pages @ [lastp]))), rest,
          pageRequests ev chainId fltr page (length pages + 1))"
proof -
  have "getEvents ev chainId fltr (page + int (length pages)) (HttpOk (pageBody lastp) # rest) =
          (Returned (g lastp), rest, [requestOf ev chainId fltr (page + int (length pages))])"
    using getEvents_partial_page [OF responds_page [OF assms(2)] assms(4)] assms(5) by simp
  moreover have "pageRequests ev chainId fltr page (length pages + 1) =
      pageRequests ev chainId fltr page (length pages) @
      [requestOf ev chainId fltr (page + int (length pages))]"
    by (subst pageRequests_append) simp
  ultimately have "getEvents ev chainId fltr page
           (map (\<lambda>xs. HttpOk (pageBody xs)) (pages @ [lastp]) @ rest) =
         (Returned (concat (map g (pages @ [lastp]))), rest,
          pageRequests ev chainId fltr page (length pages + 1))"
    using full_pages_run [OF assms(1-3), of page "HttpOk (pageBody lastp) # rest"]
    by simp
  then show ?thesis
    using full_pages_run [OF assms(1-3), of page later] by simp
qed

theorem pagination_concatenates_pages_witness:
  "f_fromBlock single_block = f_toBlock single_block \<and> hasQueue sample_env 1 \<and>
   length (replicate 1000 sample_record) = 1000 \<and> length [sample_record] \<noteq> 1000 \<and>
   mapE (formatEtherscanEvent sample_env) (replicate 1000 sample_record) =
     Inr (replicate 1000 sample_log) \<and>
   mapE (formatEtherscanEvent sample_env) [sample_record] = Inr [sample_log] \<and>
   getEvents sample_env 1 single_block 1
     [HttpOk (pageBody (replicate 1000 sample_record)),
      HttpOk (pageBody (replicate 1000 sample_record)),
      HttpOk (pageBody [sample_record])] =
   (Returned (replicate 1000 sample_log @ replicate 1000 sample_log @ [sample_log]), [],
    [requestOf sample_env 1 single_block 1, requestOf sample_env 1 single_block 2,
     requestOf sample_env 1 single_block 3])"
proof -
  let ?g = "\<lambda>xs :: jsval list. replicate (length xs) sample_log"
  let ?pages = "[replicate 1000 sample_record, replicate 1000 sample_record]"
  have full: "mapE (formatEtherscanEvent sample_env) (replicate 1000 sample_record) =
      Inr (replicate 1000 sample_log)"
    by (rule mapE_replicate) (rule format_sample_record)
  have h1: "f_fromBlock single_block = f_toBlock single_block"
    by (simp add: single_block_def)
  have h2: "hasQueue sample_env 1"
    by (simp add: hasQueue_def sample_env_def)
  have h3: "\<forall>xs\<in>set ?pages. length xs = 1000 \<and>
              mapE (formatEtherscanEvent sample_env) xs = Inr (?g xs)"
    by (simp add: full)
  have h4: "length [sample_record] \<noteq> 1000" by simp
  have h5: "mapE (formatEtherscanEvent sample_env) [sample_record] = Inr (?g [sample_record])"
    by (simp add: format_sample_record)
  show ?thesis
    using pagination_concatenates_pages [OF h1 h2 h3 h4 h5, of 1 "[]" "[]"] h1 h2 full
    by (simp add: numeral_2_eq_2 numeral_3_eq_3 format_sample_record)
qed

section \<open>A full page\<close>

lemma requestOf_eq_iff:
  "requestOf ev chainId fltr p = requestOf ev chainId fltr p' \<longleftrightarrow> p = p'"
  by (simp add: requestOf_def prepareEtherscanGetLogsQuery_def Let_def)

lemma str_includes_replicate:
  "sub \<noteq> [] \<Longrightarrow> hd sub \<noteq> c \<Longrightarrow> \<not> str_includes (replicate n c) sub"
  by (induction n) (auto simp: prefix_Cons)

lemma hasQueue_sample: "hasQueue sample_env 1"
  by (simp add: hasQueue_def sample_env_def)

lemma full_sample_page:
  "mapE (formatEtherscanEvent sample_env) (replicate n sample_record) = Inr (replicate n sample_log)"
  by (rule mapE_replicate) (rule format_sample_record)

text \<open>
  Claim C5. For a filter whose \<open>fromBlock\<close> differs from its \<open>toBlock\<close>, when the call for
  a page receives a response whose \<open>result\<close> is a sequence of exactly 1000 records,
  \<open>getEvents\<close> throws the error \<open>Log response size exceeded\<close>; it consumes no further
  response, and the requests it sent do not include the one for \<open>page + 1\<close>.
\<close>

theorem full_page_of_block_range_raises:
  assumes "responds ev chainId fltr page script (JArr xs) rest sent"
      and "length xs = 1000"
      and "f_fromBlock fltr \<noteq> f_toBlock fltr"
  shows "getEvents ev chainId fltr page script = (Thrown sizeExceeded, rest, sent) \<and>
         requestOf ev chainId fltr (page + 1) \<notin> set sent"
proof -
  have "optLength (JArr xs) = JNum 1000"
    using assms(2) by (simp add: optLength_def)
  then have "getEvents ev chainId fltr page script = (Thrown sizeExceeded, rest, sent)"
    using getEvents_full_page [OF assms(1)] assms(3) by simp
  moreover have "requestOf ev chainId fltr (page + 1) \<notin> set sent"
    using responds_sent [OF assms(1)] by (auto simp: requestOf_eq_iff)
  ultimately show ?thesis by simp
qed

theorem full_page_of_block_range_raises_witness:
  "responds sample_env 1 block_range 1
     [HttpOk (pageBody (replicate 1000 sample_record)), HttpOk (pageBody [])]
     (JArr (replicate 1000 sample_record)) [HttpOk (pageBody [])]
     [requestOf sample_env 1 block_range 1] \<and>
   length (replicate 1000 sample_record) = 1000 \<and>
   f_fromBlock block_range \<noteq> f_toBlock block_range \<and>
   getEvents sample_env 1 block_range 1
     [HttpOk (pageBody (replicate 1000 sample_record)), HttpOk (pageBody [])] =
   (Thrown (Error ''Log response size exceeded''), [HttpOk (pageBody [])],
    [requestOf sample_env 1 block_range 1])"
proof -
  have h1: "responds sample_env 1 block_range 1
     [HttpOk (pageBody (replicate 1000 sample_record)), HttpOk (pageBody [])]
     (JArr (replicate 1000 sample_record)) [HttpOk (pageBody [])]
     [requestOf sample_env 1 block_range 1]"
    by (rule responds_page) (rule hasQueue_sample)
  have h2: "length (replicate 1000 sample_record) = 1000" by simp
  have h3: "f_fromBlock block_range \<noteq> f_toBlock block_range"
    by (simp add: block_range_def)
  show ?thesis
    using full_page_of_block_range_raises [OF h1 h2 h3] h1 h3
    by (simp add: sizeExceeded_def)
qed

section \<open>A message in the result field\<close>

text \<open>
  Claim C7, amended. When the \<open>result\<close> field is a string whose length is not 1000 and that
  contains neither \<open>Max rate limit reached\<close> nor \<open>Query Timeout occured\<close>, \<open>getEvents\<close>
  throws an error whose message is that string, without another request: the requests sent
  are those of this call, all for this page, and no further response is consumed.
\<close>

theorem other_string_raises_its_message:
  assumes "responds ev chainId fltr page script (JStr s) rest sent"
      and "length s \<noteq> 1000"
      and "\<not> str_includes s ''Max rate limit reached''"
      and "\<not> str_includes s ''Query Timeout occured''"
  shows "getEvents ev chainId fltr page script = (Thrown (Error s), rest, sent) \<and>
         set sent \<subseteq> {requestOf ev chainId fltr page}"
  using getEvents_string [OF assms(1,2)] assms(3,4) responds_sent [OF assms(1)]
  by simp

theorem other_string_raises_its_message_witness:
  "responds sample_env 1 block_range 1 [HttpOk (errorBody ''Invalid API Key'')]
     (JStr ''Invalid API Key'') [] [requestOf sample_env 1 block_range 1] \<and>
   length ''Invalid API Key'' \<noteq> 1000 \<and>
   \<not> str_includes ''Invalid API Key'' ''Max rate limit reached'' \<and>
   \<not> str_includes ''Invalid API Key'' ''Query Timeout occured'' \<and>
   getEvents sample_env 1 block_range 1 [HttpOk (errorBody ''Invalid API Key'')] =
   (Thrown (Error ''Invalid API Key''), [], [requestOf sample_env 1 block_range 1])"
proof -
  have h1: "responds sample_env 1 block_range 1 [HttpOk (errorBody ''Invalid API Key'')]
     (JStr ''Invalid API Key'') [] [requestOf sample_env 1 block_range 1]"
    by (rule responds_error) (rule hasQueue_sample)
  have h2: "length ''Invalid API Key'' \<noteq> 1000" by simp
  have h3: "\<not> str_includes ''Invalid API Key'' ''Max rate limit reached''" by simp
  have h4: "\<not> str_includes ''Invalid API Key'' ''Query Timeout occured''" by simp
  show ?thesis
    using other_string_raises_its_message [OF h1 h2 h3 h4] h1 h2 h3 h4 by simp
qed

text \<open>
  Claim C7 as stated fails on a message of 1000 characters: it contains neither marker,
  and the error thrown is \<open>Log response size exceeded\<close>, not the message.
\<close>

theorem other_string_of_length_1000_counterexample:
  "\<not> str_includes (replicate 1000 CHR ''x'') ''Max rate limit reached'' \<and>
   \<not> str_includes (replicate 1000 CHR ''x'') ''Query Timeout occured'' \<and>
   getEvents sample_env 1 block_range 1 [HttpOk (errorBody (replicate 1000 CHR ''x''))] =
     (Thrown (Error ''Log response size exceeded''), [], [requestOf sample_env 1 block_range 1]) \<and>
   Error ''Log response size exceeded'' \<noteq> Error (replicate 1000 CHR ''x'')"
proof -
  let ?s = "replicate 1000 CHR ''x''"
  have r: "responds sample_env 1 block_range 1 [HttpOk (errorBody ?s)] (JStr ?s) []
             [requestOf sample_env 1 block_range 1]"
    by (rule responds_error) (rule hasQueue_sample)
  have l: "optLength (JStr ?s) = JNum 1000"
    by (simp add: optLength_def)
  have "getEvents sample_env 1 block_range 1 [HttpOk (errorBody ?s)] =
          (Thrown sizeExceeded, [], [requestOf sample_env 1 block_range 1])"
    using getEvents_full_page [OF r l] by (simp add: block_range_def)
  moreover have "length ''Log response size exceeded'' \<noteq> length ?s" by simp
  then have "''Log response size exceeded'' \<noteq> ?s" by metis
  ultimately show ?thesis
    by (simp add: str_includes_replicate sizeExceeded_def)
qed

text \<open>
  Claim C10, amended. When the \<open>result\<close> field is a string of exactly 1000 characters, the
  length check decides, whatever the string says: with \<open>fromBlock\<close> different from
  \<open>toBlock\<close> the error \<open>Log response size exceeded\<close> is thrown; with \<open>fromBlock\<close> equal to
  \<open>toBlock\<close> the call of \<open>map\<close> on the string is a \<open>TypeError\<close>, thrown before any request
  for \<open>page + 1\<close>. In both cases no further response is consumed and no further request
  is sent.
\<close>

theorem string_of_length_1000_takes_length_branch:
  assumes "responds ev chainId fltr page script (JStr s) rest sent"
      and "length s = 1000"
  shows "getEvents ev chainId fltr page script =
           (if f_fromBlock fltr = f_toBlock fltr then (Thrown TypeError, rest, sent)
            else (Thrown sizeExceeded, rest, sent)) \<and>
         set sent \<subseteq> {requestOf ev chainId fltr page}"
proof -
  have "optLength (JStr s) = JNum 1000"
    using assms(2) by (simp add: optLength_def)
  then show ?thesis
    using getEvents_full_page [OF assms(1)] responds_sent [OF assms(1)] by simp
qed

theorem string_of_length_1000_takes_length_branch_witness:
  "responds sample_env 1 block_range 1
     [HttpOk (errorBody (''Max rate limit reached'' @ replicate 978 CHR ''.''))]
     (JStr (''Max rate limit reached'' @ replicate 978 CHR ''.'')) []
     [requestOf sample_env 1 block_range 1] \<and>
   length (''Max rate limit reached'' @ replicate 978 CHR ''.'') = 1000 \<and>
   str_includes (''Max rate limit reached'' @ replicate 978 CHR ''.'') ''Max rate limit reached'' \<and>
   getEvents sample_env 1 block_range 1
     [HttpOk (errorBody (''Max rate limit reached'' @ replicate 978 CHR ''.''))] =
   (Thrown (Error ''Log response size exceeded''), [], [requestOf sample_env 1 block_range 1])"
proof -
  let ?s = "''Max rate limit reached'' @ replicate 978 CHR ''.''"
  have h1: "responds sample_env 1 block_range 1 [HttpOk (errorBody ?s)] (JStr ?s) []
     [requestOf sample_env 1 block_range 1]"
    by (rule responds_error) (rule hasQueue_sample)
  have h2: "length ?s = 1000" by simp
  have h3: "str_includes ?s ''Max rate limit reached''" by simp
  show ?thesis
    using string_of_length_1000_takes_length_branch [OF h1 h2] h1 h2 h3
    by (simp add: block_range_def sizeExceeded_def)
qed

text \<open>
  Claim C10 as stated fails for a filter of a single block: the string of 1000 characters
  is not taken for a page to go on from. The call throws a \<open>TypeError\<close>, the only request
  sent is the one for page 1, and the next response is left unread.
\<close>

theorem string_of_length_1000_counterexample:
  "getEvents sample_env 1 single_block 1
     [HttpOk (errorBody (replicate 1000 CHR ''x'')), HttpOk (pageBody [sample_record])] =
   (Thrown TypeError, [HttpOk (pageBody [sample_record])], [requestOf sample_env 1 single_block 1])"
proof -
  let ?s = "replicate 1000 CHR ''x''"
  have r: "responds sample_env 1 single_block 1
             [HttpOk (errorBody ?s), HttpOk (pageBody [sample_record])] (JStr ?s)
             [HttpOk (pageBody [sample_record])] [requestOf sample_env 1 single_block 1]"
    by (rule responds_error) (rule hasQueue_sample)
  have l: "optLength (JStr ?s) = JNum 1000"
    by (simp add: optLength_def)
  show ?thesis
    using getEvents_full_page [OF r l] by (simp add: single_block_def)
qed

text \<open>
  Claim C3. When the \<open>result\<close> field has length 1000 (as a sequence of exactly 1000 records
  has, last conjunct), \<open>getEvents\<close> takes the branch of the too-large query: for a filter
  whose \<open>fromBlock\<close> differs from its \<open>toBlock\<close> it throws \<open>Log response size exceeded\<close>;
  otherwise it normalizes the page (which may throw) and goes on with the call for
  \<open>page + 1\<close>, whose records follow this page's. It never returns with the response of this
  call alone (second conjunct). The premise is on the length only: the checks on a string
  in the \<open>result\<close> field come after it and are not consulted.
\<close>

theorem full_page_is_query_too_large:
  assumes "responds ev chainId fltr page script result rest sent"
      and "optLength result = JNum 1000"
  shows "getEvents ev chainId fltr page script =
           (if f_fromBlock fltr = f_toBlock fltr
            then (case arrayMap (formatEtherscanEvent ev) result of
                    Inl e \<Rightarrow> (Thrown e, rest, sent)
                  | Inr logs \<Rightarrow> prepend sent logs (getEvents ev chainId fltr (page + 1) rest))
            else (Thrown sizeExceeded, rest, sent)) \<and>
         (\<forall>logs'. getEvents ev chainId fltr page script \<noteq> (Returned logs', rest, sent)) \<and>
         ((optLength (JArr xs) = JNum 1000) = (length xs = 1000))"
proof -
  have eq: "getEvents ev chainId fltr page script =
           (if f_fromBlock fltr = f_toBlock fltr
            then (case arrayMap (formatEtherscanEvent ev) result of
                    Inl e \<Rightarrow> (Thrown e, rest, sent)
                  | Inr logs \<Rightarrow> prepend sent logs (getEvents ev chainId fltr (page + 1) rest))
            else (Thrown sizeExceeded, rest, sent))"
    by (rule getEvents_full_page [OF assms])
  have "snd (snd (getEvents ev chainId fltr (page + 1) rest)) \<noteq> []"
    by (rule getEvents_sends) (rule responds_hasQueue [OF assms(1)])
  then have later:
    "snd (snd (prepend sent logs (getEvents ev chainId fltr (page + 1) rest))) \<noteq> sent"
    for logs
    by (simp add: prepend_sent)
  have "getEvents ev chainId fltr page script \<noteq> (Returned logs', rest, sent)" for logs'
  proof
    assume plain: "getEvents ev chainId fltr page script = (Returned logs', rest, sent)"
    show False
    proof (cases "arrayMap (formatEtherscanEvent ev) result")
      case (Inl e)
      with plain eq show False by (simp split: if_splits)
    next
      case (Inr logs)
      with plain eq have "prepend sent logs (getEvents ev chainId fltr (page + 1) rest) =
          (Returned logs', rest, sent)"
        by (simp split: if_splits)
      then have "snd (snd (prepend sent logs (getEvents ev chainId fltr (page + 1) rest))) = sent"
        by simp
      with later [of logs] show False by simp
    qed
  qed
  moreover have "(optLength (JArr xs) = JNum 1000) = (length xs = 1000)"
    by (simp add: optLength_def)
  ultimately show ?thesis using eq by blast
qed

theorem full_page_is_query_too_large_witness:
  "responds sample_env 1 single_block 1
     [HttpOk (pageBody (replicate 1000 sample_record)), HttpOk (pageBody [sample_record])]
     (JArr (replicate 1000 sample_record)) [HttpOk (pageBody [sample_record])]
     [requestOf sample_env 1 single_block 1] \<and>
   optLength (JArr (replicate 1000 sample_record)) = JNum 1000 \<and>
   getEvents sample_env 1 single_block 1
     [HttpOk (pageBody (replicate 1000 sample_record)), HttpOk (pageBody [sample_record])] =
   (Returned (replicate 1000 sample_log @ [sample_log]), [],
    [requestOf sample_env 1 single_block 1, requestOf sample_env 1 single_block 2])"
proof -
  have h1: "responds sample_env 1 single_block 1
     [HttpOk (pageBody (replicate 1000 sample_record)), HttpOk (pageBody [sample_record])]
     (JArr (replicate 1000 sample_record)) [HttpOk (pageBody [sample_record])]
     [requestOf sample_env 1 single_block 1]"
    by (rule responds_page) (rule hasQueue_sample)
  have h2: "optLength (JArr (replicate 1000 sample_record)) = JNum 1000"
    by (simp add: optLength_def)
  have next_page: "getEvents sample_env 1 single_block (1 + 1) [HttpOk (pageBody [sample_record])] =
      (Returned [sample_log], [], [requestOf sample_env 1 single_block 2])"
    using getEvents_partial_page [OF responds_page [OF hasQueue_sample], of "[sample_record]"
        single_block "1 + 1" "[]"]
    by (simp add: format_sample_record)
  show ?thesis
    using full_page_is_query_too_large [OF h1 h2] h1 h2 next_page
    by (simp add: single_block_def full_sample_page)
qed

section \<open>The retry on the rate limit message\<close>

text \<open>
  Claim C1 does not hold of the code: the retry calls \<open>getEvents(chainId, filter)\<close> without
  the page, which is then 1. The call for page 2 that receives \<open>Max rate limit reached\<close>
  sends its next request for page 1, which is a different request. In a pagination from
  page 1 with a full page, the rate limit message on page 2, then the full page and a last
  page, the requests are for pages 1, 2, 1, 2 and the records of page 1 are returned twice.
\<close>

theorem rate_limited_page_restarts_at_page_1:
  "getEvents sample_env 1 single_block 2
     [HttpOk (errorBody ''Max rate limit reached''), HttpOk (pageBody [sample_record])] =
   (Returned [sample_log], [],
    [requestOf sample_env 1 single_block 2, requestOf sample_env 1 single_block 1]) \<and>
   requestOf sample_env 1 single_block 1 \<noteq> requestOf sample_env 1 single_block 2 \<and>
   getEvents sample_env 1 single_block 1
     [HttpOk (pageBody (replicate 1000 sample_record)),
      HttpOk (errorBody ''Max rate limit reached''),
      HttpOk (pageBody (replicate 1000 sample_record)),
      HttpOk (pageBody [sample_record])] =
   (Returned (replicate 1000 sample_log @ replicate 1000 sample_log @ [sample_log]), [],
    [requestOf sample_env 1 single_block 1, requestOf sample_env 1 single_block 2,
     requestOf sample_env 1 single_block 1, requestOf sample_env 1 single_block 2])"
proof -
  let ?limited = "HttpOk (errorBody ''Max rate limit reached'')"
  let ?full = "HttpOk (pageBody (replicate 1000 sample_record))"
  let ?last = "HttpOk (pageBody [sample_record])"
  have single: "f_fromBlock single_block = f_toBlock single_block"
    by (simp add: single_block_def)
  have last: "getEvents sample_env 1 single_block p (?last # rest) =
      (Returned [sample_log], rest, [requestOf sample_env 1 single_block p])" for p rest
    using getEvents_partial_page [OF responds_page [OF hasQueue_sample], of "[sample_record]"
        single_block p rest]
    by (simp add: format_sample_record)
  have limited: "getEvents sample_env 1 single_block p (?limited # rest) =
      prepend [requestOf sample_env 1 single_block p] []
        (getEvents sample_env 1 single_block 1 rest)" for p rest
    using getEvents_string [OF responds_error [OF hasQueue_sample], of "''Max rate limit reached''"
        single_block p rest]
    by simp
  have full: "getEvents sample_env 1 single_block p (?full # rest) =
      prepend [requestOf sample_env 1 single_block p] (replicate 1000 sample_log)
        (getEvents sample_env 1 single_block (p + 1) rest)" for p rest
    using getEvents_full_page [OF responds_page [OF hasQueue_sample],
        of "replicate 1000 sample_record" single_block p rest] single
    by (simp add: optLength_def full_sample_page)
  have "getEvents sample_env 1 single_block 2 [?limited, ?last] =
      (Returned [sample_log], [],
       [requestOf sample_env 1 single_block 2, requestOf sample_env 1 single_block 1])"
    by (simp add: limited last)
  moreover have "requestOf sample_env 1 single_block 1 \<noteq> requestOf sample_env 1 single_block 2"
    by (simp add: requestOf_eq_iff)
  moreover have "getEvents sample_env 1 single_block 1 [?full, ?limited, ?full, ?last] =
      (Returned (replicate 1000 sample_log @ replicate 1000 sample_log @ [sample_log]), [],
       [requestOf sample_env 1 single_block 1, requestOf sample_env 1 single_block 2,
        requestOf sample_env 1 single_block 1, requestOf sample_env 1 single_block 2])"
    by (simp add: full limited last)
  ultimately show ?thesis by blast
qed

section \<open>The query\<close>

lemma truthy_lowerTopic: "truthy (lowerTopic v) = truthy v"
  by (cases v) (simp_all add: toLowerCase_def)

lemma element_map_lowerTopic:
  "truthy (element (map lowerTopic ts) i) = truthy (element ts i)"
  by (simp add: element_def truthy_lowerTopic)

lemma combinators_prepare:
  "combinators (prepareEtherscanGetLogsQuery fltr page apiKey) =
     map (expectedCombinator fltr) [(0, 1), (0, 2), (0, 3), (1, 2), (1, 3), (2, 3)]"
  by (simp add: combinators_def prepareEtherscanGetLogsQuery_def Let_def opr_def
      expectedCombinator_def topicPresent_def topicAt_def element_map_lowerTopic)

text \<open>
  Claim C6, amended. For every filter, each of the six combinator parameters of the built
  query is \<open>and\<close> exactly when the topics at both its positions are present, and is left out
  otherwise. A filter with the single topic \<open>a\<close> yields \<open>topic0\<close> equal to \<open>a\<close> in lower case
  (to \<open>a\<close> itself when it is not a string) and no combinator; a filter with four topics,
  all present, yields the six combinators \<open>and\<close>.
\<close>

theorem pairwise_combinators:
  "combinators (prepareEtherscanGetLogsQuery fltr page apiKey) =
     map (expectedCombinator fltr) [(0, 1), (0, 2), (0, 3), (1, 2), (1, 3), (2, 3)] \<and>
   q_topic0 (prepareEtherscanGetLogsQuery (fltr\<lparr>f_topics := Some [a]\<rparr>) page apiKey) =
     lowerTopic a \<and>
   combinators (prepareEtherscanGetLogsQuery (fltr\<lparr>f_topics := Some [a]\<rparr>) page apiKey) =
     replicate 6 None \<and>
   (truthy a \<and> truthy b \<and> truthy c \<and> truthy d \<longrightarrow>
    combinators (prepareEtherscanGetLogsQuery (fltr\<lparr>f_topics := Some [a, b, c, d]\<rparr>) page apiKey) =
      replicate 6 (Some ''and''))"
proof -
  have one: "\<not> topicPresent (fltr\<lparr>f_topics := Some [a]\<rparr>) (Suc n)" for n
    by (simp add: topicPresent_def topicAt_def element_def)
  have four: "topicPresent (fltr\<lparr>f_topics := Some [a, b, c, d]\<rparr>) i"
    if "truthy a" "truthy b" "truthy c" "truthy d" "i < 4" for i
  proof -
    from \<open>i < 4\<close> consider "i = 0" | "i = 1" | "i = 2" | "i = 3" by linarith
    then show ?thesis
      using that by cases (simp_all add: topicPresent_def topicAt_def element_def)
  qed
  have "q_topic0 (prepareEtherscanGetLogsQuery (fltr\<lparr>f_topics := Some [a]\<rparr>) page apiKey) =
      lowerTopic a"
    by (simp add: prepareEtherscanGetLogsQuery_def Let_def element_def)
  moreover have
    "combinators (prepareEtherscanGetLogsQuery (fltr\<lparr>f_topics := Some [a]\<rparr>) page apiKey) =
      replicate 6 None"
    using one [of 0] one [of 1] one [of 2]
    by (simp add: combinators_prepare expectedCombinator_def numeral_eq_Suc)
  moreover have
    "combinators (prepareEtherscanGetLogsQuery (fltr\<lparr>f_topics := Some [a, b, c, d]\<rparr>) page apiKey) =
      replicate 6 (Some ''and'')"
    if "truthy a" "truthy b" "truthy c" "truthy d"
    using four [OF that, of 0] four [OF that, of 1] four [OF that, of 2] four [OF that, of 3]
    by (simp add: combinators_prepare expectedCombinator_def numeral_eq_Suc)
  ultimately show ?thesis
    using combinators_prepare [of fltr page apiKey] by blast
qed

theorem pairwise_combinators_witness:
  "truthy (JStr ''0xA1'') \<and> truthy (JStr ''0xB2'') \<and> truthy (JStr ''0xC3'') \<and>
   truthy (JStr ''0xD4'') \<and>
   combinators (prepareEtherscanGetLogsQuery
     (block_range\<lparr>f_topics := Some [JStr ''0xA1'', JStr ''0xB2'', JStr ''0xC3'', JStr ''0xD4'']\<rparr>)
     1 None) = replicate 6 (Some ''and'') \<and>
   q_topic0 (prepareEtherscanGetLogsQuery (block_range\<lparr>f_topics := Some [JStr ''0xA1'']\<rparr>) 1 None) =
     JStr ''0xa1'' \<and>
   combinators (prepareEtherscanGetLogsQuery (block_range\<lparr>f_topics := Some [JStr ''0xA1'']\<rparr>) 1 None) =
     replicate 6 None"
  using pairwise_combinators [of block_range 1 None "JStr ''0xA1''" "JStr ''0xB2''"
      "JStr ''0xC3''" "JStr ''0xD4''"]
  by (simp add: toLowerCase_def toLowerChar_def)

text \<open>
  Claim C6 as stated fails on a topic with capital letters: \<open>topic0\<close> is the topic in lower
  case, not the topic.
\<close>

theorem single_topic_is_lowercased_counterexample:
  "q_topic0 (prepareEtherscanGetLogsQuery
     \<lparr> f_fromBlock = None, f_toBlock = None, f_topics = Some [JStr ''0xAB''] \<rparr> 1 None) =
   JStr ''0xab'' \<and> JStr ''0xab'' \<noteq> JStr ''0xAB''"
  by (simp add: prepareEtherscanGetLogsQuery_def Let_def element_def toLowerCase_def
      toLowerChar_def)

text \<open>
  Claim C8. The \<open>fromBlock\<close> parameter of the built query is the filter's \<open>fromBlock\<close>, or 0
  when the filter has none; the \<open>toBlock\<close> parameter is the filter's \<open>toBlock\<close>, or the
  string \<open>latest\<close> when the filter has none.
\<close>

theorem query_block_bounds:
  "q_fromBlock (prepareEtherscanGetLogsQuery fltr page apiKey) =
     JNum (case f_fromBlock fltr of None \<Rightarrow> 0 | Some b \<Rightarrow> b) \<and>
   q_toBlock (prepareEtherscanGetLogsQuery fltr page apiKey) =
     (case f_toBlock fltr of None \<Rightarrow> JStr ''latest'' | Some b \<Rightarrow> JNum b)"
  by (simp add: prepareEtherscanGetLogsQuery_def Let_def split: option.splits)

theorem query_block_bounds_witness:
  "q_fromBlock (prepareEtherscanGetLogsQuery block_range 1 None) = JNum 5 \<and>
   q_toBlock (prepareEtherscanGetLogsQuery block_range 1 None) = JNum 9 \<and>
   q_fromBlock (prepareEtherscanGetLogsQuery (block_range\<lparr>f_fromBlock := None\<rparr>) 1 None) = JNum 0 \<and>
   q_toBlock (prepareEtherscanGetLogsQuery (block_range\<lparr>f_toBlock := None\<rparr>) 1 None) =
     JStr ''latest''"
  using query_block_bounds [of block_range 1 None]
    query_block_bounds [of "block_range\<lparr>f_fromBlock := None\<rparr>" 1 None]
    query_block_bounds [of "block_range\<lparr>f_toBlock := None\<rparr>" 1 None]
  by (simp add: block_range_def)

section \<open>Normalization of a record\<close>

lemma arrayFilter_Inr:
  "arrayFilter p v = Inr ts \<Longrightarrow> v = JArr (elements v) \<and> ts = filter p (elements v)"
  by (cases v) auto

lemma mapE_Inl: "mapE f xs = Inl e \<Longrightarrow> \<exists>x\<in>set xs. f x = Inl e"
  by (induction xs) (auto split: sum.splits)

lemma toString_error: "toString v = Inl e \<Longrightarrow> e = TypeError"
proof (induction v arbitrary: e rule: toString.induct)
  case (6 xs)
  from "6.prems" have "mapE (\<lambda>x. if nullish x then Inr [] else toString x) xs = Inl e"
    by (simp split: sum.splits)
  then obtain x where "x \<in> set xs" and "(if nullish x then Inr [] else toString x) = Inl e"
    by (auto dest: mapE_Inl)
  then show ?case
    using "6.IH" [of x e] by (simp split: if_splits)
qed (simp_all split: if_splits)

lemma parsedField_text: "propOf raw k = JStr t \<Longrightarrow> parsedField raw k = Some (parseInt t 16)"
  by (simp add: parsedField_def)

lemma parseIntOf_parsedField:
  "parseIntOf (propOf raw k) 16 =
     (case parsedField raw k of None \<Rightarrow> Inl TypeError | Some n \<Rightarrow> Inr n)"
  by (auto simp: parseIntOf_def parsedField_def split: sum.splits dest: toString_error)

lemma format_accepted:
  assumes "\<not> nullish raw"
      and "getAddress ev (propOf raw ''address'') = Inr addr"
      and "propOf raw ''topics'' = JArr ts"
      and "parsedField raw ''blockNumber'' = Some b"
      and "parsedField raw ''transactionIndex'' = Some t"
      and "parsedField raw ''logIndex'' = Some l"
      and "parsedField raw ''timeStamp'' = Some s"
  shows "formatEtherscanEvent ev raw =
           Inr \<lparr> l_address = addr, l_topics = filter truthy ts,
                 l_data = propOf raw ''data'',
                 l_transactionHash = propOf raw ''transactionHash'',
                 l_blockNumber = b, l_transactionIndex = t, l_logIndex = l,
                 l_timestamp = s \<rparr>"
  using assms by (simp add: formatEtherscanEvent_def getProp_def parseIntOf_parsedField)

lemma format_normalizes:
  assumes "accepted ev raw" and "textual raw"
  shows "\<exists>log. formatEtherscanEvent ev raw = Inr log \<and>
           l_topics log = filter truthy (elements (propOf raw ''topics'')) \<and>
           map Some (integerFields log) = map (parsedField raw) integerProps"
proof -
  from assms(1) obtain addr ts where
    a: "\<not> nullish raw" "getAddress ev (propOf raw ''address'') = Inr addr"
      "propOf raw ''topics'' = JArr ts"
    by (auto simp: accepted_def elim!: isArray.elims) (metis sum.collapse(2))
  from assms(2) obtain b t l s where
    p: "parsedField raw ''blockNumber'' = Some b" "parsedField raw ''transactionIndex'' = Some t"
      "parsedField raw ''logIndex'' = Some l" "parsedField raw ''timeStamp'' = Some s"
    by (auto simp: textual_def integerProps_def)
  show ?thesis
    using format_accepted [OF a p] a(3) p by (simp add: integerFields_def integerProps_def)
qed

lemma format_not_textual:
  assumes "accepted ev raw" and "\<not> textual raw"
  shows "formatEtherscanEvent ev raw = Inl TypeError"
proof -
  from assms(1) obtain addr ts where
    a: "\<not> nullish raw" "getAddress ev (propOf raw ''address'') = Inr addr"
      "propOf raw ''topics'' = JArr ts"
    by (auto simp: accepted_def elim!: isArray.elims) (metis sum.collapse(2))
  have start: "formatEtherscanEvent ev raw =
      (case parsedField raw ''blockNumber'' of None \<Rightarrow> Inl TypeError | Some b \<Rightarrow>
      (case parsedField raw ''transactionIndex'' of None \<Rightarrow> Inl TypeError | Some t \<Rightarrow>
      (case parsedField raw ''logIndex'' of None \<Rightarrow> Inl TypeError | Some l \<Rightarrow>
      (case parsedField raw ''timeStamp'' of None \<Rightarrow> Inl TypeError | Some s \<Rightarrow>
         Inr \<lparr> l_address = addr, l_topics = filter truthy ts,
               l_data = propOf raw ''data'',
               l_transactionHash = propOf raw ''transactionHash'',
               l_blockNumber = b, l_transactionIndex = t, l_logIndex = l,
               l_timestamp = s \<rparr>))))"
    using a
    by (simp add: formatEtherscanEvent_def getProp_def parseIntOf_parsedField
        split: option.split)
  show ?thesis
  proof (cases "parsedField raw ''blockNumber''")
    case None
    then show ?thesis by (simp add: start)
  next
    case b: (Some b)
    show ?thesis
    proof (cases "parsedField raw ''transactionIndex''")
      case None
      then show ?thesis by (simp add: start b)
    next
      case t: (Some t)
      show ?thesis
      proof (cases "parsedField raw ''logIndex''")
        case None
        then show ?thesis by (simp add: start b t)
      next
        case l: (Some l)
        show ?thesis
        proof (cases "parsedField raw ''timeStamp''")
          case None
          then show ?thesis by (simp add: start b t l)
        next
          case (Some s)
          with b t l assms(2) show ?thesis
            by (simp add: textual_def integerProps_def)
        qed
      qed
    qed
  qed
qed

lemma format_Inr_topics:
  assumes "formatEtherscanEvent ev raw = Inr log"
  shows "propOf raw ''topics'' = JArr (elements (propOf raw ''topics'')) \<and>
         l_topics log = filter truthy (elements (propOf raw ''topics''))"
proof -
  obtain a where 1: "getProp raw ''address'' = Inr a"
    using assms by (cases "getProp raw ''address''") (simp_all add: formatEtherscanEvent_def)
  obtain addr where 2: "getAddress ev a = Inr addr"
    using assms 1 by (cases "getAddress ev a") (simp_all add: formatEtherscanEvent_def)
  obtain ts where 3: "arrayFilter truthy (propOf raw ''topics'') = Inr ts"
    using assms 1 2
    by (cases "arrayFilter truthy (propOf raw ''topics'')")
       (simp_all add: formatEtherscanEvent_def)
  obtain b where 4: "parseIntOf (propOf raw ''blockNumber'') 16 = Inr b"
    using assms 1 2 3
    by (cases "parseIntOf (propOf raw ''blockNumber'') 16")
       (simp_all add: formatEtherscanEvent_def)
  obtain t where 5: "parseIntOf (propOf raw ''transactionIndex'') 16 = Inr t"
    using assms 1 2 3 4
    by (cases "parseIntOf (propOf raw ''transactionIndex'') 16")
       (simp_all add: formatEtherscanEvent_def)
  obtain l where 6: "parseIntOf (propOf raw ''logIndex'') 16 = Inr l"
    using assms 1 2 3 4 5
    by (cases "parseIntOf (propOf raw ''logIndex'') 16")
       (simp_all add: formatEtherscanEvent_def)
  obtain s where 7: "parseIntOf (propOf raw ''timeStamp'') 16 = Inr s"
    using assms 1 2 3 4 5 6
    by (cases "parseIntOf (propOf raw ''timeStamp'') 16")
       (simp_all add: formatEtherscanEvent_def)
  have "l_topics log = ts"
    using assms 1 2 3 4 5 6 7 by (auto simp: formatEtherscanEvent_def)
  with arrayFilter_Inr [OF 3] show ?thesis by simp
qed

lemma fields_at:
  assumes "map Some (integerFields log') = map (parsedField raw) integerProps"
      and "i < 4" and "propOf raw (integerProps ! i) = JStr ''0x1a''"
  shows "integerFields log' ! i = Num 26"
proof -
  have len: "length (integerFields log') = 4" "length integerProps = 4"
    by (simp_all add: integerFields_def integerProps_def)
  have "Some (integerFields log' ! i) = map Some (integerFields log') ! i"
    using assms(2) len by simp
  also have "\<dots> = parsedField raw (integerProps ! i)"
    using assms(2) len by (simp add: assms(1))
  also have "\<dots> = Some (Num 26)"
    using assms(3) by (simp add: parsedField_text parseInt_hex)
  finally show ?thesis by simp
qed

text \<open>
  Claim C9. Whenever a record normalizes to a log, the record's \<open>topics\<close> are an array and
  the log's topics are its truthy entries, in their order. A record whose address and
  topics are accepted and whose integer-valued properties have a text does normalize, to
  a log with these topics: the topics \<open>0xabc\<close>, the empty string and \<open>0xdef\<close> give \<open>0xabc\<close>
  and \<open>0xdef\<close>, and an integer-valued property that is the text \<open>0x1a\<close> gives the
  field 26 of the log.
\<close>

theorem normalized_topics:
  "(formatEtherscanEvent ev raw = Inr log \<longrightarrow>
      propOf raw ''topics'' = JArr (elements (propOf raw ''topics'')) \<and>
      l_topics log = filter truthy (elements (propOf raw ''topics''))) \<and>
   (accepted ev raw \<and> textual raw \<longrightarrow>
      (\<exists>log'. formatEtherscanEvent ev raw = Inr log' \<and>
         l_topics log' = filter truthy (elements (propOf raw ''topics'')) \<and>
         (propOf raw ''topics'' = JArr [JStr ''0xabc'', JStr [], JStr ''0xdef''] \<longrightarrow>
            l_topics log' = [JStr ''0xabc'', JStr ''0xdef'']) \<and>
         (\<forall>i<4. propOf raw (integerProps ! i) = JStr ''0x1a'' \<longrightarrow>
            integerFields log' ! i = Num 26)))"
proof (rule conjI)
  show "formatEtherscanEvent ev raw = Inr log \<longrightarrow>
      propOf raw ''topics'' = JArr (elements (propOf raw ''topics'')) \<and>
      l_topics log = filter truthy (elements (propOf raw ''topics''))"
    by (rule impI) (rule format_Inr_topics)
  show "accepted ev raw \<and> textual raw \<longrightarrow>
      (\<exists>log'. formatEtherscanEvent ev raw = Inr log' \<and>
         l_topics log' = filter truthy (elements (propOf raw ''topics'')) \<and>
         (propOf raw ''topics'' = JArr [JStr ''0xabc'', JStr [], JStr ''0xdef''] \<longrightarrow>
            l_topics log' = [JStr ''0xabc'', JStr ''0xdef'']) \<and>
         (\<forall>i<4. propOf raw (integerProps ! i) = JStr ''0x1a'' \<longrightarrow>
            integerFields log' ! i = Num 26))"
  proof (rule impI)
    assume "accepted ev raw \<and> textual raw"
    then have "accepted ev raw" and "textual raw" by simp_all
    from format_normalizes [OF this] obtain log' where
      f: "formatEtherscanEvent ev raw = Inr log'"
      and t: "l_topics log' = filter truthy (elements (propOf raw ''topics''))"
      and n: "map Some (integerFields log') = map (parsedField raw) integerProps"
      by (elim exE conjE)
    have ex: "l_topics log' = [JStr ''0xabc'', JStr ''0xdef'']"
      if "propOf raw ''topics'' = JArr [JStr ''0xabc'', JStr [], JStr ''0xdef'']"
      by (simp add: t that)
    show "\<exists>log'. formatEtherscanEvent ev raw = Inr log' \<and>
         l_topics log' = filter truthy (elements (propOf raw ''topics'')) \<and>
         (propOf raw ''topics'' = JArr [JStr ''0xabc'', JStr [], JStr ''0xdef''] \<longrightarrow>
            l_topics log' = [JStr ''0xabc'', JStr ''0xdef'']) \<and>
         (\<forall>i<4. propOf raw (integerProps ! i) = JStr ''0x1a'' \<longrightarrow>
            integerFields log' ! i = Num 26)"
    proof (intro exI [of _ log'] conjI allI impI)
      show "formatEtherscanEvent ev raw = Inr log'" by (rule f)
      show "l_topics log' = filter truthy (elements (propOf raw ''topics''))" by (rule t)
      show "l_topics log' = [JStr ''0xabc'', JStr ''0xdef'']"
        if "propOf raw ''topics'' = JArr [JStr ''0xabc'', JStr [], JStr ''0xdef'']"
        using that by (rule ex)
      show "integerFields log' ! i = Num 26"
        if "i < 4" and "propOf raw (integerProps ! i) = JStr ''0x1a''" for i
        using n that by (rule fields_at)
    qed
  qed
qed


lemma accepted_sample_record: "accepted sample_env sample_record \<and> textual sample_record"
  by (simp add: accepted_def textual_def integerProps_def parsedField_def sample_env_def
      sample_record_def sample_address)

theorem normalized_topics_witness:
  "formatEtherscanEvent sample_env sample_record = Inr sample_log \<and>
   accepted sample_env sample_record \<and> textual sample_record \<and>
   propOf sample_record ''topics'' = JArr [JStr ''0xabc'', JStr [], JStr ''0xdef''] \<and>
   l_topics sample_log = [JStr ''0xabc'', JStr ''0xdef''] \<and>
   propOf sample_record (integerProps ! 0) = JStr ''0x1a'' \<and>
   integerFields sample_log ! 0 = Num 26 \<and>
   l_blockNumber sample_log = Num 26"
proof -
  note w = normalized_topics [of sample_env sample_record sample_log]
  have p: "propOf sample_record ''topics'' = JArr [JStr ''0xabc'', JStr [], JStr ''0xdef'']"
    by (simp add: sample_record_def)
  have b: "propOf sample_record (integerProps ! 0) = JStr ''0x1a''"
    by (simp add: sample_record_def integerProps_def)
  from w [THEN conjunct2, THEN mp, OF accepted_sample_record] obtain log' where
    f: "formatEtherscanEvent sample_env sample_record = Inr log'"
    and e: "propOf sample_record ''topics'' = JArr [JStr ''0xabc'', JStr [], JStr ''0xdef''] \<longrightarrow>
       l_topics log' = [JStr ''0xabc'', JStr ''0xdef'']"
    and n: "\<forall>i<4. propOf sample_record (integerProps ! i) = JStr ''0x1a'' \<longrightarrow>
       integerFields log' ! i = Num 26"
    by (elim exE conjE)
  from f have same: "log' = sample_log"
    by (simp add: format_sample_record)
  have t: "l_topics sample_log = [JStr ''0xabc'', JStr ''0xdef'']"
    using e p same by simp
  have i: "integerFields sample_log ! 0 = Num 26"
    using n [rule_format, of 0] b same by simp
  have l: "l_blockNumber sample_log = Num 26"
    using i by (simp add: integerFields_def)
  show ?thesis
    using format_sample_record accepted_sample_record p t b i l by simp
qed

text \<open>
  Claim C2, amended. An integer-valued property that is a text never makes normalization
  throw, hexadecimal or not: a page of records whose addresses and topics are accepted and
  whose integer-valued properties have a text (as every string has, last conjunct) is
  normalized whole, and each of the four fields is \<open>Number.parseInt\<close> of the text in radix
  16. That is \<open>NaN\<close>, not an error, exactly when no hexadecimal digit is read from the text.
  Normalization throws on account of such a property only when it has no text, its
  conversion to a string being a \<open>TypeError\<close>.
\<close>

theorem integer_fields_never_raise:
  assumes "\<forall>raw\<in>set records. accepted ev raw \<and> textual raw"
  shows "(\<exists>logs. mapE (formatEtherscanEvent ev) records = Inr logs \<and>
            map (\<lambda>log. map Some (integerFields log)) logs =
              map (\<lambda>raw. map (parsedField raw) integerProps) records) \<and>
         ((parseInt s 16 = NaN) = (hexDigitsRead s = [])) \<and>
         (accepted ev raw0 \<and> \<not> textual raw0 \<longrightarrow> formatEtherscanEvent ev raw0 = Inl TypeError) \<and>
         (propOf raw0 k = JStr t \<longrightarrow> parsedField raw0 k = Some (parseInt t 16))"
proof -
  have "\<exists>logs. mapE (formatEtherscanEvent ev) records = Inr logs \<and>
            map (\<lambda>log. map Some (integerFields log)) logs =
              map (\<lambda>raw. map (parsedField raw) integerProps) records"
    using assms
  proof (induction records)
    case Nil
    show ?case by simp
  next
    case (Cons raw records)
    from Cons.prems obtain log where
      "formatEtherscanEvent ev raw = Inr log"
      "map Some (integerFields log) = map (parsedField raw) integerProps"
      using format_normalizes [of ev raw] by auto
    moreover from Cons obtain logs where
      "mapE (formatEtherscanEvent ev) records = Inr logs"
      "map (\<lambda>log. map Some (integerFields log)) logs =
         map (\<lambda>raw. map (parsedField raw) integerProps) records"
      by auto
    ultimately show ?case by simp
  qed
  then show ?thesis
    by (simp add: parseInt_NaN_iff format_not_textual parsedField_text)
qed

lemma accepted_bad_record: "accepted sample_env bad_record \<and> textual bad_record"
  by (simp add: accepted_def textual_def integerProps_def parsedField_def sample_env_def
      bad_record_def sample_address)

lemma accepted_opaque_record:
  "accepted sample_env opaque_record \<and> \<not> textual opaque_record \<and>
   propOf opaque_record ''logIndex'' = JStr ''0x1''"
  by (simp add: accepted_def textual_def integerProps_def parsedField_def sample_env_def
      opaque_record_def sample_address)

theorem integer_fields_never_raise_witness:
  "accepted sample_env bad_record \<and> textual bad_record \<and>
   accepted sample_env sample_record \<and> textual sample_record \<and>
   propOf bad_record ''blockNumber'' = JStr ''zz'' \<and> hexDigitsRead ''zz'' = [] \<and>
   mapE (formatEtherscanEvent sample_env) [bad_record, sample_record] = Inr [bad_log, sample_log] \<and>
   integerFields bad_log = [NaN, Num 2, Num 1, NaN] \<and>
   parseInt ''zz'' 16 = NaN \<and>
   accepted sample_env opaque_record \<and> \<not> textual opaque_record \<and>
   formatEtherscanEvent sample_env opaque_record = Inl TypeError \<and>
   propOf opaque_record ''logIndex'' = JStr ''0x1'' \<and>
   parsedField opaque_record ''logIndex'' = Some (parseInt ''0x1'' 16)"
proof -
  have h: "\<forall>raw\<in>set [bad_record, sample_record]. accepted sample_env raw \<and> textual raw"
    by (simp add: accepted_bad_record accepted_sample_record)
  have z: "hexDigitsRead ''zz'' = []"
    by (simp add: hexDigitsRead_def isWhiteSpace_def isRadixDigit_def digitValue_def
        toLowerChar_def)
  have b: "propOf bad_record ''blockNumber'' = JStr ''zz''"
    by (simp add: bad_record_def)
  have f: "integerFields bad_log = [NaN, Num 2, Num 1, NaN]"
    by (simp add: integerFields_def bad_log_def)
  have m: "mapE (formatEtherscanEvent sample_env) [bad_record, sample_record] =
      Inr [bad_log, sample_log]"
    by (simp add: format_bad_record format_sample_record)
  note w = integer_fields_never_raise
    [OF h, of "''zz''" opaque_record "''logIndex''" "''0x1''"]
  have n: "parseInt ''zz'' 16 = NaN"
    using w z by simp
  have o: "formatEtherscanEvent sample_env opaque_record = Inl TypeError"
    using w accepted_opaque_record by simp
  have q: "parsedField opaque_record ''logIndex'' = Some (parseInt ''0x1'' 16)"
    using w accepted_opaque_record by simp
  show ?thesis
    using accepted_bad_record accepted_sample_record accepted_opaque_record z b f m n o q
    by simp
qed

text \<open>
  Claim C2 as stated fails on a record whose \<open>blockNumber\<close> is the text \<open>zz\<close>: the record
  normalizes to a log whose block number is \<open>NaN\<close>, and so does the page that holds it.
\<close>

theorem non_hex_field_gives_NaN_counterexample:
  "formatEtherscanEvent sample_env bad_record = Inr bad_log \<and>
   propOf bad_record ''blockNumber'' = JStr ''zz'' \<and>
   l_blockNumber bad_log = NaN \<and>
   arrayMap (formatEtherscanEvent sample_env) (JArr [bad_record, sample_record]) =
     Inr [bad_log, sample_log]"
proof -
  have b: "propOf bad_record ''blockNumber'' = JStr ''zz''"
    by (simp add: bad_record_def)
  have c: "l_blockNumber bad_log = NaN"
    by (simp add: bad_log_def)
  have d: "arrayMap (formatEtherscanEvent sample_env) (JArr [bad_record, sample_record]) =
      Inr [bad_log, sample_log]"
    by (simp add: format_bad_record format_sample_record)
  show ?thesis
    using format_bad_record b c d by simp
qed

end
